theory Spec2Isabelle
  imports Complex_Main "HOL-Library.Word"
begin

section \<open>The UAVSAR tile route: data model\<close>

text \<open>
  The route handler \<^verbatim>\<open>GET\<close> turns a slippy-map tile address into a Web Mercator
  bounding box, asks the upstream ArcGIS export service for a 256 x 256 PNG of that box
  and relays the answer.

  The tile arithmetic is given twice. \<open>tile2lon\<close>, \<open>tile2lat\<close>,
  \<open>lonLatToWebMercator\<close> and \<open>projectedBBox\<close> are the formulas of the code over the real
  numbers: the values the code approximates, free of rounding, overflow and \<^verbatim>\<open>NaN\<close>. They
  serve where the request is built from a box, whatever its numbers, and for the known
  values. \<open>tile2lon_d\<close>, \<open>tile2lat_d\<close>, \<open>lonLatToWebMercator_d\<close> and
  \<open>projectedBBox_d\<close> are the same lines in the arithmetic the code runs in, IEEE 754
  binary64 with round to nearest, ties to even, overflow to the infinities and
  \<^verbatim>\<open>NaN\<close>; they serve where rounding or overflow decides a property.
\<close>

type_synonym bytes = "8 word list"

datatype jsnumber = Finite real | NaN | PosInfinity | NegInfinity

fun Number_isFinite :: "jsnumber \<Rightarrow> bool" where
  "Number_isFinite (Finite v) = True"
| "Number_isFinite NaN = False"
| "Number_isFinite PosInfinity = False"
| "Number_isFinite NegInfinity = False"

text \<open>The route parameters; a segment that is \<^verbatim>\<open>undefined\<close> is \<open>None\<close>.\<close>

record route_params =
  param_z :: "string option"
  param_x :: "string option"
  param_y :: "string option"

record route_context =
  params :: "route_params option"

text \<open>The outbound request: the URL and the options given to \<^verbatim>\<open>fetch\<close>.\<close>

record fetch_request =
  url :: string
  request_headers :: "(string \<times> string) list"
  cache :: string

text \<open>
  What the handler reads of the upstream response: its status, its body stream (or
  \<^verbatim>\<open>null\<close>), and what \<^verbatim>\<open>upstream.text()\<close> resolves to (\<open>None\<close> when that promise
  rejects). \<^verbatim>\<open>ok\<close> is the Fetch standard's: a status from 200 to 299.
\<close>

record upstream_response =
  up_status :: nat
  up_body :: "bytes option"
  up_text :: "string option"

definition up_ok :: "upstream_response \<Rightarrow> bool" where
  "up_ok u = (200 \<le> up_status u \<and> up_status u \<le> 299)"

datatype fetch_result = Rejects | Resolves upstream_response

text \<open>
  The handler's own response: a JSON object (\<^verbatim>\<open>NextResponse.json\<close>) or a raw body
  (\<^verbatim>\<open>new Response\<close>); \<open>headers\<close> are the headers the handler passes itself.
\<close>

datatype response_body = Json "(string \<times> string) list" | Body "bytes option"

record response =
  status :: nat
  headers :: "(string \<times> string) list"
  body :: response_body

text \<open>A call of the handler returns a response, or the promise it returns rejects.\<close>

datatype outcome = Throws | Returns response

text \<open>
  The environment of a call: the configured service URL, the platform's \<^verbatim>\<open>Number(s)\<close>
  on strings, its conversion of a number to a string (used by \<^verbatim>\<open>Array.prototype.join\<close>),
  and the network as a function from the request to what \<^verbatim>\<open>fetch\<close> does with it.
\<close>

record env =
  UAVSAR_SERVICE_URL :: string
  js_Number :: "string \<Rightarrow> jsnumber"
  js_toString :: "real \<Rightarrow> string"
  fetch :: "fetch_request \<Rightarrow> fetch_result"

section \<open>Tile arithmetic\<close>

definition TILE_SIZE :: nat where
  "TILE_SIZE = 256"

definition EARTH_RADIUS :: real where
  "EARTH_RADIUS = 6378137"

definition ORIGIN_SHIFT :: real where
  "ORIGIN_SHIFT = pi * EARTH_RADIUS"

definition tile2lon :: "real \<Rightarrow> real \<Rightarrow> real" where
  "tile2lon x z = (x / 2 powr z) * 360 - 180"

definition tile2lat :: "real \<Rightarrow> real \<Rightarrow> real" where
  "tile2lat y z =
     (let n = pi - (2 * pi * y) / 2 powr z
      in (180 / pi) * arctan (0.5 * (exp n - exp (- n))))"

record point =
  px :: real
  py :: real

definition lonLatToWebMercator :: "real \<Rightarrow> real \<Rightarrow> point" where
  "lonLatToWebMercator lon lat =
     (let x = (lon * ORIGIN_SHIFT) / 180;
          clampedLat = max (min lat 89.9999) (- 89.9999);
          y = ln (tan (((90 + clampedLat) * pi) / 360)) * EARTH_RADIUS
      in \<lparr>px = x, py = y\<rparr>)"

text \<open>Lines 45 to 51 of the handler: the four edges, and the two projected corners.\<close>

record bbox =
  minX :: real
  minY :: real
  maxX :: real
  maxY :: real

definition projectedBBox :: "real \<Rightarrow> real \<Rightarrow> real \<Rightarrow> bbox" where
  "projectedBBox zoom tileX tileY =
     (let north = tile2lat tileY zoom;
          south = tile2lat (tileY + 1) zoom;
          west = tile2lon tileX zoom;
          east = tile2lon (tileX + 1) zoom;
          sw = lonLatToWebMercator west south;
          ne = lonLatToWebMercator east north
      in \<lparr>minX = px sw, minY = py sw, maxX = px ne, maxY = py ne\<rparr>)"

section \<open>Tile arithmetic in IEEE 754 binary64\<close>

text \<open>
  A JavaScript number is a binary64 value. \<open>fl\<close> rounds a real number to the nearest
  one, ties to even: 53 significant bits, exponents from -1022 (below which the spacing
  stays \<open>2^-1074\<close>, the subnormal numbers) to 1023, and a result of magnitude \<open>2^1024\<close> or
  more is an infinity. A negative zero is not told apart from zero: the divisors of the
  code are \<^verbatim>\<open>2 ** z\<close>, 180 and 360, none of which is a negative zero, and no other
  operation used here separates the two zeros.
\<close>

definition round_half_even :: "real \<Rightarrow> int" where
  "round_half_even r =
     (let f = \<lfloor>r\<rfloor>
      in if r - of_int f < 1 / 2 then f
         else if 1 / 2 < r - of_int f then f + 1
         else if even f then f else f + 1)"

definition exponent :: "real \<Rightarrow> int" where
  "exponent x = max \<lfloor>log 2 \<bar>x\<bar>\<rfloor> (- 1022)"

definition ulp :: "real \<Rightarrow> real" where
  "ulp x = 2 powr (of_int (exponent x) - 52)"

definition fl :: "real \<Rightarrow> jsnumber" where
  "fl x =
     (if x = 0 then Finite 0
      else let r = of_int (round_half_even (x / ulp x)) * ulp x
           in if 2 ^ 1024 \<le> \<bar>r\<bar> then (if 0 < x then PosInfinity else NegInfinity)
              else Finite r)"

text \<open>
  \<^verbatim>\<open>Math.PI\<close> is the double nearest to \<open>pi\<close>. The arithmetic operators round the exact
  result and follow IEEE 754 on \<^verbatim>\<open>NaN\<close> and the infinities. \<^verbatim>\<open>2 ** z\<close> is exact for
  the integer exponents from -1074 to 1023 and is taken correctly rounded elsewhere.
\<close>

definition MATH_PI :: real where
  "MATH_PI = 884279719003555 / 2 ^ 48"

fun js_neg :: "jsnumber \<Rightarrow> jsnumber" where
  "js_neg (Finite a) = Finite (- a)"
| "js_neg NaN = NaN"
| "js_neg PosInfinity = NegInfinity"
| "js_neg NegInfinity = PosInfinity"

fun js_add :: "jsnumber \<Rightarrow> jsnumber \<Rightarrow> jsnumber" where
  "js_add (Finite a) (Finite b) = fl (a + b)"
| "js_add NaN b = NaN"
| "js_add a NaN = NaN"
| "js_add PosInfinity NegInfinity = NaN"
| "js_add NegInfinity PosInfinity = NaN"
| "js_add PosInfinity b = PosInfinity"
| "js_add a PosInfinity = PosInfinity"
| "js_add NegInfinity b = NegInfinity"
| "js_add a NegInfinity = NegInfinity"

definition js_sub :: "jsnumber \<Rightarrow> jsnumber \<Rightarrow> jsnumber" where
  "js_sub a b = js_add a (js_neg b)"

fun js_mul :: "jsnumber \<Rightarrow> jsnumber \<Rightarrow> jsnumber" where
  "js_mul (Finite a) (Finite b) = fl (a * b)"
| "js_mul NaN b = NaN"
| "js_mul a NaN = NaN"
| "js_mul (Finite a) PosInfinity =
     (if a = 0 then NaN else if 0 < a then PosInfinity else NegInfinity)"
| "js_mul (Finite a) NegInfinity =
     (if a = 0 then NaN else if 0 < a then NegInfinity else PosInfinity)"
| "js_mul PosInfinity (Finite b) =
     (if b = 0 then NaN else if 0 < b then PosInfinity else NegInfinity)"
| "js_mul NegInfinity (Finite b) =
     (if b = 0 then NaN else if 0 < b then NegInfinity else PosInfinity)"
| "js_mul PosInfinity PosInfinity = PosInfinity"
| "js_mul PosInfinity NegInfinity = NegInfinity"
| "js_mul NegInfinity PosInfinity = NegInfinity"
| "js_mul NegInfinity NegInfinity = PosInfinity"

fun js_div :: "jsnumber \<Rightarrow> jsnumber \<Rightarrow> jsnumber" where
  "js_div (Finite a) (Finite b) =
     (if b = 0 then (if a = 0 then NaN else if 0 < a then PosInfinity else NegInfinity)
      else fl (a / b))"
| "js_div NaN b = NaN"
| "js_div a NaN = NaN"
| "js_div (Finite a) PosInfinity = Finite 0"
| "js_div (Finite a) NegInfinity = Finite 0"
| "js_div PosInfinity (Finite b) = (if 0 \<le> b then PosInfinity else NegInfinity)"
| "js_div NegInfinity (Finite b) = (if 0 \<le> b then NegInfinity else PosInfinity)"
| "js_div PosInfinity PosInfinity = NaN"
| "js_div PosInfinity NegInfinity = NaN"
| "js_div NegInfinity PosInfinity = NaN"
| "js_div NegInfinity NegInfinity = NaN"

fun js_pow2 :: "jsnumber \<Rightarrow> jsnumber" where
  "js_pow2 (Finite z) = fl (2 powr z)"
| "js_pow2 NaN = NaN"
| "js_pow2 PosInfinity = PosInfinity"
| "js_pow2 NegInfinity = Finite 0"

fun js_min :: "jsnumber \<Rightarrow> jsnumber \<Rightarrow> jsnumber" where
  "js_min (Finite a) (Finite b) = Finite (min a b)"
| "js_min NaN b = NaN"
| "js_min a NaN = NaN"
| "js_min NegInfinity b = NegInfinity"
| "js_min a NegInfinity = NegInfinity"
| "js_min PosInfinity b = b"
| "js_min a PosInfinity = a"

fun js_max :: "jsnumber \<Rightarrow> jsnumber \<Rightarrow> jsnumber" where
  "js_max (Finite a) (Finite b) = Finite (max a b)"
| "js_max NaN b = NaN"
| "js_max a NaN = NaN"
| "js_max PosInfinity b = PosInfinity"
| "js_max a PosInfinity = PosInfinity"
| "js_max NegInfinity b = b"
| "js_max a NegInfinity = a"

fun js_lt :: "jsnumber \<Rightarrow> jsnumber \<Rightarrow> bool" where
  "js_lt (Finite a) (Finite b) = (a < b)"
| "js_lt NaN b = False"
| "js_lt a NaN = False"
| "js_lt a NegInfinity = False"
| "js_lt PosInfinity b = False"
| "js_lt NegInfinity b = True"
| "js_lt a PosInfinity = True"

text \<open>
  ECMAScript leaves \<^verbatim>\<open>Math.exp\<close>, \<^verbatim>\<open>Math.atan\<close>, \<^verbatim>\<open>Math.tan\<close> and \<^verbatim>\<open>Math.log\<close> to the
  implementation, fixing only their values at \<^verbatim>\<open>NaN\<close>, the infinities and zero. On
  finite arguments they are a parameter of the model; \<open>ideal_math\<close> is the implementation
  that rounds the exact value.
\<close>

record js_math =
  math_exp :: "real \<Rightarrow> jsnumber"
  math_atan :: "real \<Rightarrow> jsnumber"
  math_tan :: "real \<Rightarrow> jsnumber"
  math_log :: "real \<Rightarrow> jsnumber"

fun js_exp :: "js_math \<Rightarrow> jsnumber \<Rightarrow> jsnumber" where
  "js_exp m (Finite v) = math_exp m v"
| "js_exp m NaN = NaN"
| "js_exp m PosInfinity = PosInfinity"
| "js_exp m NegInfinity = Finite 0"

fun js_atan :: "js_math \<Rightarrow> jsnumber \<Rightarrow> jsnumber" where
  "js_atan m (Finite v) = math_atan m v"
| "js_atan m NaN = NaN"
| "js_atan m PosInfinity = Finite (MATH_PI / 2)"
| "js_atan m NegInfinity = Finite (- (MATH_PI / 2))"

fun js_tan :: "js_math \<Rightarrow> jsnumber \<Rightarrow> jsnumber" where
  "js_tan m (Finite v) = math_tan m v"
| "js_tan m NaN = NaN"
| "js_tan m PosInfinity = NaN"
| "js_tan m NegInfinity = NaN"

fun js_log :: "js_math \<Rightarrow> jsnumber \<Rightarrow> jsnumber" where
  "js_log m (Finite v) = (if v < 0 then NaN else if v = 0 then NegInfinity else math_log m v)"
| "js_log m NaN = NaN"
| "js_log m PosInfinity = PosInfinity"
| "js_log m NegInfinity = NaN"

definition ideal_math :: js_math where
  "ideal_math =
     \<lparr>math_exp = (\<lambda>v. fl (exp v)), math_atan = (\<lambda>v. fl (arctan v)),
      math_tan = (\<lambda>v. fl (tan v)), math_log = (\<lambda>v. fl (ln v))\<rparr>"

text \<open>Lines 3 to 25 and 45 to 51 of the handler, operation by operation.\<close>

definition ORIGIN_SHIFT_d :: jsnumber where
  "ORIGIN_SHIFT_d = js_mul (Finite MATH_PI) (Finite 6378137)"

definition tile2lon_d :: "jsnumber \<Rightarrow> jsnumber \<Rightarrow> jsnumber" where
  "tile2lon_d x z = js_sub (js_mul (js_div x (js_pow2 z)) (Finite 360)) (Finite 180)"

definition tile2lat_d :: "js_math \<Rightarrow> jsnumber \<Rightarrow> jsnumber \<Rightarrow> jsnumber" where
  "tile2lat_d m y z =
     (let n = js_sub (Finite MATH_PI)
                (js_div (js_mul (js_mul (Finite 2) (Finite MATH_PI)) y) (js_pow2 z))
      in js_mul (js_div (Finite 180) (Finite MATH_PI))
           (js_atan m (js_mul (Finite 0.5) (js_sub (js_exp m n) (js_exp m (js_neg n))))))"

record point_d =
  px_d :: jsnumber
  py_d :: jsnumber

definition clampedLat_d :: "jsnumber \<Rightarrow> jsnumber" where
  "clampedLat_d lat = js_max (js_min lat (fl 89.9999)) (js_neg (fl 89.9999))"

definition lonLatToWebMercator_d :: "js_math \<Rightarrow> jsnumber \<Rightarrow> jsnumber \<Rightarrow> point_d" where
  "lonLatToWebMercator_d m lon lat =
     (let x = js_div (js_mul lon ORIGIN_SHIFT_d) (Finite 180);
          clampedLat = clampedLat_d lat;
          y = js_mul
                (js_log m (js_tan m
                   (js_div (js_mul (js_add (Finite 90) clampedLat) (Finite MATH_PI)) (Finite 360))))
                (Finite 6378137)
      in \<lparr>px_d = x, py_d = y\<rparr>)"

record bbox_d =
  minX_d :: jsnumber
  minY_d :: jsnumber
  maxX_d :: jsnumber
  maxY_d :: jsnumber

definition projectedBBox_d :: "js_math \<Rightarrow> jsnumber \<Rightarrow> jsnumber \<Rightarrow> jsnumber \<Rightarrow> bbox_d" where
  "projectedBBox_d m zoom tileX tileY =
     (let north = tile2lat_d m tileY zoom;
          south = tile2lat_d m (js_add tileY (Finite 1)) zoom;
          west = tile2lon_d tileX zoom;
          east = tile2lon_d (js_add tileX (Finite 1)) zoom;
          sw = lonLatToWebMercator_d m west south;
          ne = lonLatToWebMercator_d m east north
      in \<lparr>minX_d = px_d sw, minY_d = py_d sw, maxX_d = px_d ne, maxY_d = py_d ne\<rparr>)"

text \<open>
  The accuracy asked of an implementation of the four functions: on the arguments the
  tile arithmetic reaches, the result is finite and within relative error \<open>2^-45\<close> of the
  exact value (128 units in the last place or more), up to half the least subnormal
  number.
\<close>

definition close :: "jsnumber \<Rightarrow> real \<Rightarrow> bool" where
  "close r v =
     (case r of Finite w \<Rightarrow> \<bar>w - v\<bar> \<le> \<bar>v\<bar> / 2 ^ 45 + 2 powr (- 1075) | _ \<Rightarrow> False)"

definition accurate :: "js_math \<Rightarrow> bool" where
  "accurate m =
     ((\<forall>v. \<bar>v\<bar> \<le> 4 \<longrightarrow> close (math_exp m v) (exp v))
      \<and> (\<forall>v. \<bar>v\<bar> \<le> 64 \<longrightarrow> close (math_atan m v) (arctan v))
      \<and> (\<forall>v. 1 / 25 \<le> v \<and> v \<le> 153 / 100 \<longrightarrow> close (math_tan m v) (tan v))
      \<and> (\<forall>v. 1 / 50 \<le> v \<and> v \<le> 50 \<longrightarrow> close (math_log m v) (ln v)))"

section \<open>Strings: joining, decimal numerals, percent encoding\<close>

fun join :: "string \<Rightarrow> string list \<Rightarrow> string" where
  "join sep [] = []"
| "join sep [s] = s"
| "join sep (s # t # ss) = s @ sep @ join sep (t # ss)"

text \<open>A natural number in a template literal is written in decimal.\<close>

definition digit_char :: "nat \<Rightarrow> char" where
  "digit_char d = ''0123456789'' ! d"

function show_nat :: "nat \<Rightarrow> string" where
  "show_nat n = (if n < 10 then [digit_char n] else show_nat (n div 10) @ [digit_char (n mod 10)])"
  by pat_completeness auto
termination
  by (relation "measure id") auto

declare show_nat.simps [simp del]

text \<open>
  \<^verbatim>\<open>encodeURIComponent\<close> on a string of bytes: letters, digits and
  \<^verbatim>\<open>- _ . ! ~ * ' ( )\<close> stay, every other byte becomes \<^verbatim>\<open>%XX\<close> in upper-case hex.
\<close>

definition uri_unreserved :: "char \<Rightarrow> bool" where
  "uri_unreserved c =
     (c \<in> set ''ABCDEFGHIJKLMNOPQRSTUVWXYZabcdefghijklmnopqrstuvwxyz0123456789-_.!~*()''
      \<or> c = CHR 0x27)"

definition hex_digit :: "nat \<Rightarrow> char" where
  "hex_digit d = ''0123456789ABCDEF'' ! d"

definition percent_encode :: "char \<Rightarrow> string" where
  "percent_encode c =
     [CHR ''%'', hex_digit ((of_char c :: nat) div 16), hex_digit ((of_char c :: nat) mod 16)]"

definition encodeURIComponent :: "string \<Rightarrow> string" where
  "encodeURIComponent s =
     concat (map (\<lambda>c. if uri_unreserved c then [c] else percent_encode c) s)"

section \<open>The handler\<close>

text \<open>
  \<^verbatim>\<open>NextResponse.json(obj, {status})\<close> builds its response with the platform's
  \<^verbatim>\<open>Response\<close> constructor, which by the Fetch standard throws a \<^verbatim>\<open>RangeError\<close> for a
  status outside 200 to 599, and a \<^verbatim>\<open>TypeError\<close> when a body is given with one of the
  null-body statuses 204, 205 and 304 (101 and 103 are already out of range). The JSON
  text is such a body.
\<close>

definition NextResponse_json :: "(string \<times> string) list \<Rightarrow> nat \<Rightarrow> outcome" where
  "NextResponse_json obj st =
     (if st < 200 \<or> 599 < st then Throws
      else if st = 204 \<or> st = 205 \<or> st = 304 then Throws
      else Returns \<lparr>status = st, headers = [], body = Json obj\<rparr>)"

text \<open>Lines 53 to 66: the export URL and the options of the fetch.\<close>

definition export_request :: "env \<Rightarrow> bbox \<Rightarrow> fetch_request" where
  "export_request e b =
     (let bbox = join '','' (map (js_toString e) [minX b, minY b, maxX b, maxY b]);
          url = UAVSAR_SERVICE_URL e @ ''/export''
                @ ''?bbox='' @ encodeURIComponent bbox
                @ ''&bboxSR=102100&imageSR=102100''
                @ ''&size='' @ show_nat TILE_SIZE @ '','' @ show_nat TILE_SIZE
                @ ''&format=png32&transparent=true&f=image''
      in \<lparr>url = url, request_headers = [(''Accept'', ''image/png'')], cache = ''no-store''\<rparr>)"

text \<open>
  Lines 68 to 82: the upstream failure answer, or the relayed image. A response that
  reaches the second branch is 2xx and has a body, so its status is not 204 or 205 (for
  these \<^verbatim>\<open>fetch\<close> gives a null body), and \<^verbatim>\<open>new Response\<close> accepts it.
\<close>

definition relay :: "upstream_response \<Rightarrow> outcome" where
  "relay upstream =
     (if \<not> up_ok upstream \<or> up_body upstream = None then
        (let message = (case up_text upstream of None \<Rightarrow> [] | Some t \<Rightarrow> t)
         in NextResponse_json
              [(''error'', if message \<noteq> [] then message
                           else ''Upstream error '' @ show_nat (up_status upstream))]
              (if up_status upstream \<noteq> 0 then up_status upstream else 502))
      else
        Returns \<lparr>status = up_status upstream,
                 headers = [(''Content-Type'', ''image/png''),
                            (''Cache-Control'', ''public, max-age=600'')],
                 body = Body (up_body upstream)\<rparr>)"

text \<open>
  The handler returns the list of the requests it has sent with \<^verbatim>\<open>fetch\<close>, in order,
  and its outcome. The outer case is the test of line 33 (one of z, x, y is
  \<^verbatim>\<open>undefined\<close>), the inner one the test of line 41 (one of the three numbers is not
  finite). A rejected \<^verbatim>\<open>fetch\<close> is not caught (line 61 stands in no \<^verbatim>\<open>try\<close>), so
  the handler's promise rejects with it.
\<close>

definition tile_params :: "route_context option \<Rightarrow> string option \<times> string option \<times> string option" where
  "tile_params ctx =
     (case (case ctx of None \<Rightarrow> None | Some c \<Rightarrow> params c) of
        None \<Rightarrow> (None, None, None)
      | Some p \<Rightarrow> (param_z p, param_x p, param_y p))"

definition GET :: "env \<Rightarrow> route_context option \<Rightarrow> fetch_request list \<times> outcome" where
  "GET e ctx =
     (case tile_params ctx of
        (Some z, Some x, Some y) \<Rightarrow>
          (case (js_Number e z, js_Number e x, js_Number e y) of
             (Finite zoom, Finite tileX, Finite tileY) \<Rightarrow>
               (let req = export_request e (projectedBBox zoom tileX tileY)
                in case fetch e req of
                     Rejects \<Rightarrow> ([req], Throws)
                   | Resolves upstream \<Rightarrow> ([req], relay upstream))
           | _ \<Rightarrow> ([], NextResponse_json [(''error'', ''Invalid tile coordinates'')] 400))
      | _ \<Rightarrow> ([], NextResponse_json [(''error'', ''Missing tile coordinates'')] 400))"

section \<open>The transform in the words of the specification\<close>

text \<open>
  The specification's algorithm, written from its four steps and not from the code: the
  edge longitude and latitude, the projection of a longitude and of a clamped latitude
  with \<open>R = 6378137\<close>, and the box assembled from the south-west and north-east corners.
\<close>

definition spec_lon :: "real \<Rightarrow> real \<Rightarrow> real" where
  "spec_lon col zoom = col / 2 powr zoom * 360 - 180"

definition spec_lat :: "real \<Rightarrow> real \<Rightarrow> real" where
  "spec_lat row zoom =
     (let n = pi - 2 * pi * row / 2 powr zoom
      in (180 / pi) * arctan (0.5 * (exp n - exp (- n))))"

definition spec_x :: "real \<Rightarrow> real" where
  "spec_x lon = lon * 6378137 * pi / 180"

definition spec_y :: "real \<Rightarrow> real" where
  "spec_y lat = 6378137 * ln (tan (pi / 4 + max (- 89.9999) (min 89.9999 lat) * pi / 360))"

definition spec_bbox :: "real \<Rightarrow> real \<Rightarrow> real \<Rightarrow> bbox" where
  "spec_bbox zoom column row =
     \<lparr>minX = spec_x (spec_lon column zoom),
      minY = spec_y (spec_lat (row + 1) zoom),
      maxX = spec_x (spec_lon (column + 1) zoom),
      maxY = spec_y (spec_lat row zoom)\<rparr>"

section \<open>Reading a query string\<close>

text \<open>
  How the receiver of the export request reads its query string: the string is split at
  \<^verbatim>\<open>&\<close>, each part at its first \<^verbatim>\<open>=\<close>, and the value is percent-decoded. These
  functions are not part of the handler; they say what the URL it builds means.
\<close>

definition hex_value :: "char \<Rightarrow> nat" where
  "hex_value c =
     (let k = of_char c in if 48 \<le> k \<and> k \<le> 57 then k - 48 else k - 55)"

fun percent_decode :: "string \<Rightarrow> string" where
  "percent_decode (c # h # l # rest) =
     (if c = CHR ''%'' then char_of (16 * hex_value h + hex_value l) # percent_decode rest
      else c # percent_decode (h # l # rest))"
| "percent_decode (c # cs) = c # percent_decode cs"
| "percent_decode [] = []"

fun split_on :: "char \<Rightarrow> string \<Rightarrow> string list" where
  "split_on d [] = [[]]"
| "split_on d (c # cs) =
     (if c = d then [] # split_on d cs
      else (case split_on d cs of p # ps \<Rightarrow> (c # p) # ps | [] \<Rightarrow> [[c]]))"

definition query_pair :: "string \<Rightarrow> string \<times> string" where
  "query_pair kv =
     (takeWhile (\<lambda>c. c \<noteq> CHR ''='') kv,
      percent_decode (drop 1 (dropWhile (\<lambda>c. c \<noteq> CHR ''='') kv)))"

definition query_params :: "string \<Rightarrow> (string \<times> string) list" where
  "query_params q = map query_pair (split_on CHR ''&'' q)"

section \<open>Concrete runs\<close>

text \<open>
  An environment and a context for concrete runs of the handler: \<^verbatim>\<open>Number\<close> on the few
  strings the runs use, a network that answers every request with \<open>r\<close>.
\<close>

definition scenario_Number :: "string \<Rightarrow> jsnumber" where
  "scenario_Number s =
     (if s = ''10'' then Finite 10 else if s = ''100'' then Finite 100
      else if s = ''200'' then Finite 200 else NaN)"

definition scenario_env :: "fetch_result \<Rightarrow> env" where
  "scenario_env r =
     \<lparr>UAVSAR_SERVICE_URL = ''https://maps.example/MapServer'',
      js_Number = scenario_Number,
      js_toString = (\<lambda>v. ''0''),
      fetch = (\<lambda>req. r)\<rparr>"

definition scenario_context ::
  "string option \<Rightarrow> string option \<Rightarrow> string option \<Rightarrow> route_context option" where
  "scenario_context z x y = Some \<lparr>params = Some \<lparr>param_z = z, param_x = x, param_y = y\<rparr>\<rparr>"

section \<open>The handler's three ways out\<close>

lemma scenario_params [simp]: "tile_params (scenario_context z x y) = (z, x, y)"
  by (simp add: tile_params_def scenario_context_def)

lemma scenario_Number_simps [simp]:
  "js_Number (scenario_env r) ''10'' = Finite 10"
  "js_Number (scenario_env r) ''100'' = Finite 100"
  "js_Number (scenario_env r) ''200'' = Finite 200"
  "js_Number (scenario_env r) ''abc'' = NaN"
  by (simp_all add: scenario_env_def scenario_Number_def)

lemma scenario_fetch [simp]: "fetch (scenario_env r) req = r"
  by (simp add: scenario_env_def)

lemma scenario_strings [simp]:
  "js_toString (scenario_env r) v = ''0''"
  "UAVSAR_SERVICE_URL (scenario_env r) = ''https://maps.example/MapServer''"
  by (simp_all add: scenario_env_def)

lemma GET_valid:
  "tile_params ctx = (Some z, Some x, Some y) \<Longrightarrow>
   js_Number e z = Finite zoom \<Longrightarrow> js_Number e x = Finite tileX \<Longrightarrow>
   js_Number e y = Finite tileY \<Longrightarrow>
   GET e ctx =
     (let req = export_request e (projectedBBox zoom tileX tileY)
      in ([req], case fetch e req of Rejects \<Rightarrow> Throws | Resolves u \<Rightarrow> relay u))"
  by (simp add: GET_def Let_def split: fetch_result.splits)

lemma GET_missing:
  "tile_params ctx = (z, x, y) \<Longrightarrow> z = None \<or> x = None \<or> y = None \<Longrightarrow>
     GET e ctx = ([], NextResponse_json [(''error'', ''Missing tile coordinates'')] 400)"
  by (cases z; cases x; cases y) (simp_all add: GET_def)

lemma GET_invalid:
  assumes "tile_params ctx = (Some z, Some x, Some y)"
    and "\<not> Number_isFinite (js_Number e z) \<or> \<not> Number_isFinite (js_Number e x)
         \<or> \<not> Number_isFinite (js_Number e y)"
  shows "GET e ctx = ([], NextResponse_json [(''error'', ''Invalid tile coordinates'')] 400)"
proof -
  have "(case (js_Number e z, js_Number e x, js_Number e y) of
             (Finite zoom, Finite tileX, Finite tileY) \<Rightarrow> f zoom tileX tileY
           | _ \<Rightarrow> d) = d" for f and d :: "fetch_request list \<times> outcome"
    using assms(2)
    by (cases "js_Number e z"; cases "js_Number e x"; cases "js_Number e y") simp_all
  then show ?thesis
    using assms(1) by (simp add: GET_def)
qed

text \<open>
  Claim C2. When one of the path parameters z, x, y is absent, the handler answers
  400 with the JSON body \<^verbatim>\<open>{"error": "Missing tile coordinates"}\<close>; when all three are
  present and one of them is not a finite number, it answers 400 with
  \<^verbatim>\<open>{"error": "Invalid tile coordinates"}\<close>. In both cases the list of requests sent
  upstream is empty.
\<close>

theorem GET_bad_coordinates:
  "(tile_params ctx = (z, x, y) \<and> (z = None \<or> x = None \<or> y = None) \<longrightarrow>
      GET e ctx = ([], Returns \<lparr>status = 400, headers = [],
                                body = Json [(''error'', ''Missing tile coordinates'')]\<rparr>))
   \<and> (tile_params ctx = (Some zs, Some xs, Some ys)
        \<and> (\<not> Number_isFinite (js_Number e zs) \<or> \<not> Number_isFinite (js_Number e xs)
             \<or> \<not> Number_isFinite (js_Number e ys)) \<longrightarrow>
      GET e ctx = ([], Returns \<lparr>status = 400, headers = [],
                                body = Json [(''error'', ''Invalid tile coordinates'')]\<rparr>))"
  using GET_missing [of ctx z x y e] GET_invalid [of ctx zs xs ys e]
  by (simp add: NextResponse_json_def)

theorem GET_bad_coordinates_witness:
  "GET (scenario_env Rejects) (scenario_context (Some ''10'') (Some ''100'') None)
     = ([], Returns \<lparr>status = 400, headers = [],
                      body = Json [(''error'', ''Missing tile coordinates'')]\<rparr>)
   \<and> GET (scenario_env Rejects) (scenario_context (Some ''10'') (Some ''abc'') (Some ''200''))
     = ([], Returns \<lparr>status = 400, headers = [],
                      body = Json [(''error'', ''Invalid tile coordinates'')]\<rparr>)"
  using GET_bad_coordinates [of "scenario_context (Some ''10'') (Some ''100'') None"
          "Some ''10''" "Some ''100''" None "scenario_env Rejects"]
        GET_bad_coordinates [of "scenario_context (Some ''10'') (Some ''abc'') (Some ''200'')"
          _ _ _ "scenario_env Rejects" "''10''" "''abc''" "''200''"]
  by simp

lemma GET_upstream_failure_response:
  "tile_params ctx = (Some z, Some x, Some y) \<Longrightarrow>
   js_Number e z = Finite zoom \<Longrightarrow> js_Number e x = Finite tileX \<Longrightarrow>
   js_Number e y = Finite tileY \<Longrightarrow>
   fetch e (export_request e (projectedBBox zoom tileX tileY)) = Resolves u \<Longrightarrow>
   \<not> (200 \<le> up_status u \<and> up_status u \<le> 299) \<or> up_body u = None \<Longrightarrow>
   up_status u = 0 \<or> 200 \<le> up_status u \<and> up_status u \<le> 599 \<Longrightarrow>
   up_status u \<noteq> 204 \<Longrightarrow> up_status u \<noteq> 205 \<Longrightarrow> up_status u \<noteq> 304 \<Longrightarrow>
   snd (GET e ctx) =
     Returns \<lparr>status = (if up_status u = 0 then 502 else up_status u),
              headers = [],
              body = Json [(''error'',
                case up_text u of
                  None \<Rightarrow> ''Upstream error '' @ show_nat (up_status u)
                | Some t \<Rightarrow> if t = [] then ''Upstream error '' @ show_nat (up_status u) else t)]\<rparr>"
  using GET_valid [of ctx z x y e zoom tileX tileY]
  by (auto simp: Let_def relay_def up_ok_def NextResponse_json_def split: option.splits)

lemma GET_upstream_404:
  "snd (GET (scenario_env (Resolves
               \<lparr>up_status = 404,
                up_body = Some [116, 105, 108, 101, 32, 110, 111, 116, 32, 102, 111, 117, 110, 100],
                up_text = Some ''tile not found''\<rparr>))
          (scenario_context (Some ''10'') (Some ''100'') (Some ''200'')))
     = Returns \<lparr>status = 404, headers = [], body = Json [(''error'', ''tile not found'')]\<rparr>"
  using GET_upstream_failure_response [of
          "scenario_context (Some ''10'') (Some ''100'') (Some ''200'')"
          "''10''" "''100''" "''200''"
          "scenario_env (Resolves
             \<lparr>up_status = 404,
              up_body = Some [116, 105, 108, 101, 32, 110, 111, 116, 32, 102, 111, 117, 110, 100],
              up_text = Some ''tile not found''\<rparr>)"
          10 100 200
          "\<lparr>up_status = 404,
            up_body = Some [116, 105, 108, 101, 32, 110, 111, 116, 32, 102, 111, 117, 110, 100],
            up_text = Some ''tile not found''\<rparr>"]
  by simp

text \<open>
  Claim C3. When the upstream response is not 2xx or has no body (a 2xx response
  without a body included), the handler should answer with the upstream status, or 502
  when that status is 0, and a JSON body with the upstream text or
  \<^verbatim>\<open>Upstream error <status>\<close>. It does so when the status it answers with is one that
  the \<^verbatim>\<open>Response\<close> constructor takes together with a body (the two lemmas above). The
  run below is the request z=10, x=100, y=200 against an upstream that answers
  204 No Content, a 2xx response without a body: the handler passes status 204 and the
  JSON body to \<^verbatim>\<open>NextResponse.json\<close>, which throws, so the handler's promise rejects
  and no response is built.
\<close>

theorem GET_upstream_no_content:
  "GET (scenario_env (Resolves \<lparr>up_status = 204, up_body = None, up_text = Some []\<rparr>))
     (scenario_context (Some ''10'') (Some ''100'') (Some ''200''))
   = ([export_request
         (scenario_env (Resolves \<lparr>up_status = 204, up_body = None, up_text = Some []\<rparr>))
         (projectedBBox 10 100 200)],
      Throws)"
  using GET_valid [of "scenario_context (Some ''10'') (Some ''100'') (Some ''200'')"
          "''10''" "''100''" "''200''"
          "scenario_env (Resolves \<lparr>up_status = 204, up_body = None, up_text = Some []\<rparr>)"
          10 100 200]
  by (simp add: Let_def relay_def up_ok_def NextResponse_json_def)

text \<open>
  Claim C4. When the coordinates are valid and the upstream response is 2xx with a
  body, the handler's response has the upstream status, the headers
  \<^verbatim>\<open>Content-Type: image/png\<close> and \<^verbatim>\<open>Cache-Control: public, max-age=600\<close>, and as body
  the upstream bytes, unchanged.
\<close>

theorem GET_upstream_success:
  "tile_params ctx = (Some z, Some x, Some y) \<Longrightarrow>
   js_Number e z = Finite zoom \<Longrightarrow> js_Number e x = Finite tileX \<Longrightarrow>
   js_Number e y = Finite tileY \<Longrightarrow>
   fetch e (export_request e (projectedBBox zoom tileX tileY)) = Resolves u \<Longrightarrow>
   200 \<le> up_status u \<Longrightarrow> up_status u \<le> 299 \<Longrightarrow> up_body u = Some png \<Longrightarrow>
   snd (GET e ctx) =
     Returns \<lparr>status = up_status u,
              headers = [(''Content-Type'', ''image/png''),
                         (''Cache-Control'', ''public, max-age=600'')],
              body = Body (Some png)\<rparr>"
  using GET_valid [of ctx z x y e zoom tileX tileY]
  by (simp add: Let_def relay_def up_ok_def)

theorem GET_upstream_success_witness:
  "snd (GET (scenario_env (Resolves \<lparr>up_status = 200, up_body = Some [137, 80, 78, 71],
                                      up_text = None\<rparr>))
          (scenario_context (Some ''10'') (Some ''100'') (Some ''200'')))
     = Returns \<lparr>status = 200,
                headers = [(''Content-Type'', ''image/png''),
                           (''Cache-Control'', ''public, max-age=600'')],
                body = Body (Some [137, 80, 78, 71])\<rparr>"
  using GET_upstream_success [of "scenario_context (Some ''10'') (Some ''100'') (Some ''200'')"
          "''10''" "''100''" "''200''"
          "scenario_env (Resolves \<lparr>up_status = 200, up_body = Some [137, 80, 78, 71],
                                    up_text = None\<rparr>)"
          10 100 200 "\<lparr>up_status = 200, up_body = Some [137, 80, 78, 71], up_text = None\<rparr>"
          "[137, 80, 78, 71]"]
  by simp

lemma GET_one_fetch:
  "tile_params ctx = (Some z, Some x, Some y) \<Longrightarrow>
   js_Number e z = Finite zoom \<Longrightarrow> js_Number e x = Finite tileX \<Longrightarrow>
   js_Number e y = Finite tileY \<Longrightarrow>
   fst (GET e ctx) = [export_request e (projectedBBox zoom tileX tileY)]"
  using GET_valid [of ctx z x y e zoom tileX tileY]
  by (simp add: Let_def)

text \<open>
  Claim C5, as the code has it. A request whose three coordinates are present and
  finite is sent upstream exactly once, whatever becomes of the fetch, and never
  retried; a request with a missing or non-finite coordinate is not sent upstream at
  all. When the fetch rejects (a network failure), the handler builds no response: its
  own promise rejects.
\<close>

theorem GET_upstream_attempts:
  "(tile_params ctx = (Some z, Some x, Some y) \<and> js_Number e z = Finite zoom
        \<and> js_Number e x = Finite tileX \<and> js_Number e y = Finite tileY \<longrightarrow>
      fst (GET e ctx) = [export_request e (projectedBBox zoom tileX tileY)]
      \<and> (fetch e (export_request e (projectedBBox zoom tileX tileY)) = Rejects \<longrightarrow>
           snd (GET e ctx) = Throws))
   \<and> (tile_params ctx = (zo, xo, yo) \<and> (zo = None \<or> xo = None \<or> yo = None) \<longrightarrow>
        fst (GET e ctx) = [])
   \<and> (tile_params ctx = (Some z, Some x, Some y)
        \<and> (\<not> Number_isFinite (js_Number e z) \<or> \<not> Number_isFinite (js_Number e x)
             \<or> \<not> Number_isFinite (js_Number e y)) \<longrightarrow>
        fst (GET e ctx) = [])"
  using GET_valid [of ctx z x y e zoom tileX tileY] GET_missing [of ctx zo xo yo e]
    GET_invalid [of ctx z x y e]
  by (simp add: Let_def)

theorem GET_upstream_attempts_witness:
  "fst (GET (scenario_env Rejects) (scenario_context (Some ''10'') (Some ''100'') (Some ''200'')))
     = [export_request (scenario_env Rejects) (projectedBBox 10 100 200)]
   \<and> snd (GET (scenario_env Rejects) (scenario_context (Some ''10'') (Some ''100'') (Some ''200'')))
     = Throws
   \<and> fst (GET (scenario_env Rejects) (scenario_context (Some ''10'') (Some ''100'') None)) = []
   \<and> fst (GET (scenario_env Rejects) (scenario_context (Some ''10'') (Some ''abc'') (Some ''200'')))
     = []"
  using GET_upstream_attempts [of
          "scenario_context (Some ''10'') (Some ''100'') (Some ''200'')"
          "''10''" "''100''" "''200''" "scenario_env Rejects" 10 100 200]
        GET_upstream_attempts [of "scenario_context (Some ''10'') (Some ''100'') None"
          _ _ _ "scenario_env Rejects" _ _ _ "Some ''10''" "Some ''100''" None]
        GET_upstream_attempts [of
          "scenario_context (Some ''10'') (Some ''abc'') (Some ''200'')"
          "''10''" "''abc''" "''200''" "scenario_env Rejects"]
  by simp

text \<open>
  The claim as the specification states it, that a rejected fetch is answered with a
  server error response, fails on the request z=10, x=100, y=200 against a network whose
  \<^verbatim>\<open>fetch\<close> rejects: one request is sent and the outcome is no response.
\<close>

theorem GET_fetch_rejected:
  "GET (scenario_env Rejects) (scenario_context (Some ''10'') (Some ''100'') (Some ''200''))
     = ([export_request (scenario_env Rejects) (projectedBBox 10 100 200)], Throws)"
  using GET_valid [of "scenario_context (Some ''10'') (Some ''100'') (Some ''200'')"
          "''10''" "''100''" "''200''" "scenario_env Rejects" 10 100 200]
  by (simp add: Let_def)

section \<open>The export request\<close>

lemma hex_value_hex_digit: "n < 16 \<Longrightarrow> hex_value (hex_digit n) = n"
  by (auto simp: less_Suc_eq numeral_eq_Suc hex_digit_def hex_value_def)

lemma percent_decode_plain: "c \<noteq> CHR ''%'' \<Longrightarrow> percent_decode (c # cs) = c # percent_decode cs"
  by (cases "(c # cs)" rule: percent_decode.cases) simp_all

lemma unreserved_not_percent: "uri_unreserved c \<Longrightarrow> c \<noteq> CHR ''%''"
  by (auto simp: uri_unreserved_def)

lemma unreserved_not_delimiter: "uri_unreserved c \<Longrightarrow> c \<noteq> CHR ''&'' \<and> c \<noteq> CHR ''=''"
  by (auto simp: uri_unreserved_def)

lemma char_nibbles: "(of_char c :: nat) div 16 < 16" "(of_char c :: nat) mod 16 < 16"
proof -
  have "(of_char c :: nat) < 16 * 16"
    using nat_of_char_less_256 [of c] by simp
  then show "(of_char c :: nat) div 16 < 16"
    by (rule less_mult_imp_div_less)
  show "(of_char c :: nat) mod 16 < 16"
    by simp
qed

lemma percent_decode_encoded:
  "percent_decode (percent_encode c @ cs) = c # percent_decode cs"
proof -
  let ?k = "of_char c :: nat"
  note k = char_nibbles [of c]
  have "16 * (?k div 16) + ?k mod 16 = ?k"
    by simp
  then show ?thesis
    by (simp add: percent_encode_def hex_value_hex_digit k)
qed

lemma encodeURIComponent_Cons:
  "encodeURIComponent (c # s) =
     (if uri_unreserved c then [c] else percent_encode c) @ encodeURIComponent s"
  by (simp add: encodeURIComponent_def)

lemma percent_decode_encodeURIComponent: "percent_decode (encodeURIComponent s) = s"
proof (induction s)
  case Nil
  show ?case by (simp add: encodeURIComponent_def)
next
  case (Cons c s)
  show ?case
  proof (cases "uri_unreserved c")
    case True
    then show ?thesis
      using Cons by (simp add: encodeURIComponent_Cons percent_decode_plain unreserved_not_percent)
  next
    case False
    then show ?thesis
      using Cons by (simp add: encodeURIComponent_Cons percent_decode_encoded)
  qed
qed

lemma hex_digit_not_delimiter: "n < 16 \<Longrightarrow> hex_digit n \<noteq> CHR ''&'' \<and> hex_digit n \<noteq> CHR ''=''"
  by (auto simp: less_Suc_eq numeral_eq_Suc hex_digit_def)

lemma encodeURIComponent_no_delimiter:
  "CHR ''&'' \<notin> set (encodeURIComponent s)" "CHR ''='' \<notin> set (encodeURIComponent s)"
proof (induction s)
  case Nil
  { case 1 show ?case by (simp add: encodeURIComponent_def) }
  { case 2 show ?case by (simp add: encodeURIComponent_def) }
next
  case (Cons c s)
  note k = char_nibbles [of c]
  { case 1 show ?case
      using Cons.IH(1) unreserved_not_delimiter [of c] hex_digit_not_delimiter [OF k(1)]
        hex_digit_not_delimiter [OF k(2)]
      by (auto simp: encodeURIComponent_Cons percent_encode_def) }
  { case 2 show ?case
      using Cons.IH(2) unreserved_not_delimiter [of c] hex_digit_not_delimiter [OF k(1)]
        hex_digit_not_delimiter [OF k(2)]
      by (auto simp: encodeURIComponent_Cons percent_encode_def) }
qed

lemma split_on_append:
  "d \<notin> set p \<Longrightarrow> split_on d (p @ d # s) = p # split_on d s"
  by (induction p) (auto split: list.splits)

lemma show_TILE_SIZE: "show_nat TILE_SIZE = ''256''"
  by (simp add: TILE_SIZE_def show_nat.simps digit_char_def)

lemma export_request_eq:
  "export_request e b =
     \<lparr>url = UAVSAR_SERVICE_URL e @ ''/export?'' @ ''bbox=''
              @ encodeURIComponent (js_toString e (minX b) @ '','' @ js_toString e (minY b)
                  @ '','' @ js_toString e (maxX b) @ '','' @ js_toString e (maxY b))
              @ ''&bboxSR=102100&imageSR=102100&size=256,256&format=png32&transparent=true&f=image'',
      request_headers = [(''Accept'', ''image/png'')],
      cache = ''no-store''\<rparr>"
  by (simp add: export_request_def Let_def show_TILE_SIZE)

lemma query_pair_bbox: "query_pair (''bbox='' @ encodeURIComponent s) = (''bbox'', s)"
  by (simp add: query_pair_def percent_decode_encodeURIComponent)

lemma export_query_params:
  "query_params (''bbox='' @ encodeURIComponent s
      @ ''&bboxSR=102100&imageSR=102100&size=256,256&format=png32&transparent=true&f=image'')
   = [(''bbox'', s), (''bboxSR'', ''102100''), (''imageSR'', ''102100''), (''size'', ''256,256''),
      (''format'', ''png32''), (''transparent'', ''true''), (''f'', ''image'')]"
proof -
  have no_amp: "CHR ''&'' \<notin> set (''bbox='' @ encodeURIComponent s)"
    using encodeURIComponent_no_delimiter(1) [of s] by simp
  have "split_on CHR ''&'' ((''bbox='' @ encodeURIComponent s)
          @ CHR ''&'' # ''bboxSR=102100&imageSR=102100&size=256,256&format=png32&transparent=true&f=image'')
        = (''bbox='' @ encodeURIComponent s)
          # split_on CHR ''&'' ''bboxSR=102100&imageSR=102100&size=256,256&format=png32&transparent=true&f=image''"
    by (rule split_on_append [OF no_amp])
  moreover have "split_on CHR ''&'' ''bboxSR=102100&imageSR=102100&size=256,256&format=png32&transparent=true&f=image''
        = [''bboxSR=102100'', ''imageSR=102100'', ''size=256,256'', ''format=png32'',
           ''transparent=true'', ''f=image'']"
    by simp
  ultimately have "split_on CHR ''&'' (''bbox='' @ encodeURIComponent s
      @ ''&bboxSR=102100&imageSR=102100&size=256,256&format=png32&transparent=true&f=image'')
     = [''bbox='' @ encodeURIComponent s, ''bboxSR=102100'', ''imageSR=102100'', ''size=256,256'',
        ''format=png32'', ''transparent=true'', ''f=image'']"
    by simp
  moreover have "map query_pair [''bboxSR=102100'', ''imageSR=102100'', ''size=256,256'',
        ''format=png32'', ''transparent=true'', ''f=image'']
     = [(''bboxSR'', ''102100''), (''imageSR'', ''102100''), (''size'', ''256,256''),
        (''format'', ''png32''), (''transparent'', ''true''), (''f'', ''image'')]"
    by (simp add: query_pair_def)
  ultimately show ?thesis
    by (simp add: query_params_def query_pair_bbox del: append.simps)
qed

text \<open>
  Claim C6. For valid coordinates the handler sends one request. Its URL is the service
  URL followed by \<^verbatim>\<open>/export?\<close> and a query string whose parameters, read back, are:
  \<^verbatim>\<open>bbox\<close>, the comma-joined string of minX, minY, maxX, maxY of the projected box;
  \<^verbatim>\<open>bboxSR\<close> and \<^verbatim>\<open>imageSR\<close>, both 102100; \<^verbatim>\<open>size\<close>, 256,256; \<^verbatim>\<open>format\<close>, png32;
  \<^verbatim>\<open>transparent\<close>, true; \<^verbatim>\<open>f\<close>, image. The fetch is issued with
  \<^verbatim>\<open>cache: "no-store"\<close>.
\<close>

theorem GET_export_request:
  "tile_params ctx = (Some z, Some x, Some y) \<Longrightarrow>
   js_Number e z = Finite zoom \<Longrightarrow> js_Number e x = Finite tileX \<Longrightarrow>
   js_Number e y = Finite tileY \<Longrightarrow>
   (let b = projectedBBox zoom tileX tileY;
        bbox_string = js_toString e (minX b) @ '','' @ js_toString e (minY b)
                      @ '','' @ js_toString e (maxX b) @ '','' @ js_toString e (maxY b);
        query = ''bbox='' @ encodeURIComponent bbox_string
                @ ''&bboxSR=102100&imageSR=102100&size=256,256&format=png32&transparent=true&f=image''
    in fst (GET e ctx) =
         [\<lparr>url = UAVSAR_SERVICE_URL e @ ''/export?'' @ query,
           request_headers = [(''Accept'', ''image/png'')],
           cache = ''no-store''\<rparr>]
       \<and> query_params query =
         [(''bbox'', bbox_string), (''bboxSR'', ''102100''), (''imageSR'', ''102100''),
          (''size'', ''256,256''), (''format'', ''png32''), (''transparent'', ''true''),
          (''f'', ''image'')])"
  using GET_one_fetch [of ctx z x y e zoom tileX tileY]
  by (simp only: Let_def export_request_eq export_query_params)

theorem GET_export_request_witness:
  "fst (GET (scenario_env Rejects) (scenario_context (Some ''10'') (Some ''100'') (Some ''200'')))
     = [\<lparr>url = ''https://maps.example/MapServer/export?bbox=0%2C0%2C0%2C0&bboxSR=102100&imageSR=102100&size=256,256&format=png32&transparent=true&f=image'',
         request_headers = [(''Accept'', ''image/png'')],
         cache = ''no-store''\<rparr>]"
  using GET_export_request [of "scenario_context (Some ''10'') (Some ''100'') (Some ''200'')"
          "''10''" "''100''" "''200''" "scenario_env Rejects" 10 100 200]
  by (simp add: Let_def encodeURIComponent_def uri_unreserved_def percent_encode_def
        hex_digit_def)

section \<open>Bounds on arctan, pi and exp\<close>

text \<open>
  The partial sums of the arctangent series bound it from both sides; with Machin's
  formula they bound \<open>pi\<close>, and with the Maclaurin expansion of the exponential they
  bound the latitude of the edge of the world tile.
\<close>

lemma arctan_partial_sums:
  fixes x :: real
  assumes "0 \<le> x" "x \<le> 1"
  shows "(\<Sum>i<2*n. (-1)^i * (1 / real (i*2+1) * x^(i*2+1))) \<le> arctan x"
    and "arctan x \<le> (\<Sum>i<2*n+1. (-1)^i * (1 / real (i*2+1) * x^(i*2+1)))"
proof -
  let ?a = "\<lambda>i. 1 / real (i*2+1) * x^(i*2+1)"
  have abs: "\<bar>x\<bar> \<le> 1" using assms by simp
  have zero: "?a \<longlonglongrightarrow> 0" by (rule zeroseq_arctan_series [OF abs])
  have pos: "0 \<le> ?a i" for i using assms by simp
  have mono: "?a (Suc i) \<le> ?a i" for i
  proof -
    have "x^(Suc i*2+1) \<le> x^(i*2+1)"
      using assms by (intro power_decreasing) simp_all
    moreover have "1 / real (Suc i*2+1) \<le> 1 / real (i*2+1)"
      by (simp add: field_simps)
    moreover have "0 \<le> x^(Suc i*2+1)" using assms by simp
    ultimately show ?thesis
      by (intro mult_mono) simp_all
  qed
  have series: "arctan x = (\<Sum>i. (-1)^i * ?a i)"
    by (rule arctan_series [OF abs])
  show "(\<Sum>i<2*n. (-1)^i * ?a i) \<le> arctan x"
    unfolding series by (rule summable_Leibniz'(2) [OF zero pos mono])
  show "arctan x \<le> (\<Sum>i<2*n+1. (-1)^i * ?a i)"
    unfolding series by (rule summable_Leibniz'(4) [OF zero pos mono])
qed

lemma arctan_fifth_bounds:
  "(0.1973955598498 :: real) < arctan (1/5)" "arctan (1/5) < (0.197395559852 :: real)"
proof -
  have "(\<Sum>i<2*4. (-1)^i * (1 / real (i*2+1) * (1/5)^(i*2+1))) \<le> arctan (1/5 :: real)"
    by (rule arctan_partial_sums) simp_all
  then show "(0.1973955598498 :: real) < arctan (1/5)"
    by (simp add: eval_nat_numeral)
  have "arctan (1/5 :: real) \<le> (\<Sum>i<2*3+1. (-1)^i * (1 / real (i*2+1) * (1/5)^(i*2+1)))"
    by (rule arctan_partial_sums) simp_all
  then show "arctan (1/5) < (0.197395559852 :: real)"
    by (simp add: eval_nat_numeral)
qed

lemma arctan_239_bounds:
  "(0.0041840760018 :: real) < arctan (1/239)" "arctan (1/239) < (0.0041840760021 :: real)"
proof -
  have "(\<Sum>i<2*1. (-1)^i * (1 / real (i*2+1) * (1/239)^(i*2+1))) \<le> arctan (1/239 :: real)"
    by (rule arctan_partial_sums) simp_all
  then show "(0.0041840760018 :: real) < arctan (1/239)"
    by (simp add: eval_nat_numeral)
  have "arctan (1/239 :: real) \<le> (\<Sum>i<2*1+1. (-1)^i * (1 / real (i*2+1) * (1/239)^(i*2+1)))"
    by (rule arctan_partial_sums) simp_all
  then show "arctan (1/239) < (0.0041840760021 :: real)"
    by (simp add: eval_nat_numeral)
qed

lemma pi_bounds: "3.1415926535 < pi" "pi < 3.1415926537"
proof -
  have m: "pi = 16 * arctan (1/5) - 4 * arctan (1/239)"
    using machin by simp
  have a: "(1973955598498 / 10000000000000 :: real) < arctan (1/5)"
    using arctan_fifth_bounds(1) by simp
  have b: "arctan (1/5) < (197395559852 / 1000000000000 :: real)"
    using arctan_fifth_bounds(2) by simp
  have c: "(41840760018 / 10000000000000 :: real) < arctan (1/239)"
    using arctan_239_bounds(1) by simp
  have d: "arctan (1/239) < (41840760021 / 10000000000000 :: real)"
    using arctan_239_bounds(2) by simp
  have "(31415926535 / 10000000000 :: real) < pi"
    unfolding m using a d by linarith
  then show "3.1415926535 < pi" by simp
  have "pi < (31415926537 / 10000000000 :: real)"
    unfolding m using b c by linarith
  then show "pi < 3.1415926537" by simp
qed

lemma gd_tan:
  fixes n :: real
  shows "tan (((90 + (180 / pi) * arctan (0.5 * (exp n - exp (- n)))) * pi) / 360) = exp n"
proof -
  define s where "s = 0.5 * (exp n - exp (- n))"
  define c where "c = 0.5 * (exp n + exp (- n))"
  define t where "t = arctan s"
  have ee: "exp n * exp (- n) = 1"
    by (simp add: exp_minus)
  have c_pos: "0 < c"
    by (simp add: c_def add_pos_pos)
  have "1 + s\<^sup>2 = c\<^sup>2"
    using ee by (simp add: s_def c_def power2_eq_square algebra_simps)
  then have root: "sqrt (1 + s\<^sup>2) = c"
    using c_pos by simp
  have cos_t: "cos t = 1 / c" and sin_t: "sin t = s / c"
    by (simp_all add: t_def cos_arctan sin_arctan root)
  have diff: "c - s = exp (- n)"
    by (simp add: s_def c_def field_simps)
  have angle: "((90 + (180 / pi) * t) * pi) / 360 = pi / 4 + t / 2"
    by (simp add: field_simps)
  have "tan (pi / 4 + t / 2) = sin (pi / 2 + t) / (cos (pi / 2 + t) + 1)"
    using tan_half [of "pi / 4 + t / 2"] by (simp add: algebra_simps)
  also have "\<dots> = cos t / (1 - sin t)"
    by (simp add: sin_add cos_add)
  also have "\<dots> = 1 / (c - s)"
    using c_pos by (simp add: cos_t sin_t field_simps)
  also have "\<dots> = exp n"
    by (simp add: diff exp_minus field_simps)
  finally have "tan (((90 + (180 / pi) * t) * pi) / 360) = exp n"
    by (simp only: angle)
  then show ?thesis
    by (simp only: t_def s_def)
qed

lemma exp_355_113: "exp (355 / 113 :: real) \<le> 23.1407"
proof -
  obtain t :: real where t: "\<bar>t\<bar> \<le> \<bar>355 / 113\<bar>"
    and e: "exp (355 / 113 :: real) = (\<Sum>m<20. (355 / 113) ^ m / fact m) + (exp t / fact 20) * (355 / 113) ^ 20"
    using Maclaurin_exp_le [of "355 / 113" 20] by blast
  have "exp t \<le> exp 4"
    using t by simp
  also have "exp (4 :: real) = exp 1 ^ 4"
    using exp_of_nat_mult [of 4 "1 :: real"] by simp
  also have "\<dots> \<le> 3 ^ 4"
    by (intro power_mono exp_le) simp
  finally have et: "exp t \<le> 81" by simp
  have "(exp t / fact 20) * (355 / 113) ^ 20 \<le> (81 / fact 20) * (355 / 113 :: real) ^ 20"
    using et by (intro mult_right_mono divide_right_mono) simp_all
  then have "exp (355 / 113 :: real) \<le> (\<Sum>m<20. (355 / 113) ^ m / fact m) + (81 / fact 20) * (355 / 113) ^ 20"
    using e by linarith
  also have "\<dots> \<le> 23.1407"
    by (simp add: eval_nat_numeral)
  finally show ?thesis .
qed

lemma arctan_sinh_pi_tight: "arctan (0.5 * (exp pi - exp (- pi))) \<le> pi / 2 - 0.08636"
proof -
  define s where "s = 0.5 * (exp pi - exp (- pi))"
  have pi_le: "pi \<le> 355 / 113"
    using pi_bounds(2) by simp
  have up: "exp pi \<le> 23.1407"
    using pi_le exp_355_113 by (meson exp_le_cancel_iff order_trans)
  have "1 / 23.1407 \<le> 1 / exp pi"
    using up by (intro divide_left_mono) simp_all
  then have low: "0.0432 \<le> exp (- pi)"
    by (simp add: exp_minus inverse_eq_divide)
  have s_le: "s \<le> 11.549"
    using up low by (simp add: s_def)
  have "exp (- pi) < exp pi"
    using pi_gt_zero by simp
  then have s_pos: "0 < s"
    by (simp add: s_def)
  have inv_ge: "0.08658 \<le> 1 / s"
  proof -
    have "1 / 11.549 \<le> 1 / s"
      using s_le s_pos by (intro divide_left_mono) simp_all
    then show ?thesis by simp
  qed
  have "(\<Sum>i<2*1. (-1)^i * (1 / real (i*2+1) * (0.08658)^(i*2+1))) \<le> arctan (0.08658 :: real)"
    by (rule arctan_partial_sums) simp_all
  then have "(0.08636 :: real) \<le> arctan 0.08658"
    by (simp add: eval_nat_numeral)
  also have "\<dots> \<le> arctan (1 / s)"
    using inv_ge by (simp add: arctan_le_iff)
  finally have low_inv: "0.08636 \<le> arctan (1 / s)" .
  have "arctan (1 / s) = pi / 2 - arctan s"
    using arctan_inverse [of s] s_pos by simp
  then have "arctan s \<le> pi / 2 - 0.08636"
    using low_inv by linarith
  then show ?thesis
    by (simp add: s_def)
qed


section \<open>The projection on tile edges\<close>

lemma half_exp_diff_mono:
  fixes m n :: real
  assumes "m \<le> n"
  shows "0.5 * (exp m - exp (- m)) \<le> 0.5 * (exp n - exp (- n))"
proof -
  have "exp m \<le> exp n" "exp (- n) \<le> exp (- m)"
    using assms by simp_all
  then have "exp m - exp (- m) \<le> exp n - exp (- n)"
    by linarith
  then show ?thesis by simp
qed


lemma tile_n_range:
  fixes y :: real
  assumes "0 \<le> y" "y \<le> 2 powr z"
  shows "- pi \<le> pi - (2 * pi * y) / 2 powr z" "pi - (2 * pi * y) / 2 powr z \<le> pi"
proof -
  have p: "0 < (2::real) powr z" by simp
  have "y / 2 powr z \<le> 1"
    using assms p by (simp add: field_simps)
  then have "2 * pi * (y / 2 powr z) \<le> 2 * pi * 1"
    by (intro mult_left_mono) simp_all
  then show "- pi \<le> pi - (2 * pi * y) / 2 powr z"
    by simp
  have "0 \<le> (2 * pi * y) / 2 powr z"
    using assms by simp
  then show "pi - (2 * pi * y) / 2 powr z \<le> pi"
    by simp
qed


lemma mercator_y_unclamped:
  assumes "- 89.9999 \<le> tile2lat y z" "tile2lat y z \<le> 89.9999"
  shows "py (lonLatToWebMercator lon (tile2lat y z)) = (pi - (2 * pi * y) / 2 powr z) * EARTH_RADIUS"
proof -
  let ?n = "pi - (2 * pi * y) / 2 powr z"
  have clamp: "max (min (tile2lat y z) 89.9999) (- 89.9999) = tile2lat y z"
    using assms by simp
  have "tan (((90 + tile2lat y z) * pi) / 360) = exp ?n"
    unfolding tile2lat_def Let_def by (rule gd_tan)
  then have "ln (tan (((90 + tile2lat y z) * pi) / 360)) = ?n"
    by simp
  then show ?thesis
    by (simp only: lonLatToWebMercator_def Let_def clamp point.simps)
qed

lemma mercator_x: "px (lonLatToWebMercator lon lat) = (lon * ORIGIN_SHIFT) / 180"
  by (simp add: lonLatToWebMercator_def Let_def)

lemma projectedBBox_fields:
  "minX (projectedBBox zoom tileX tileY)
     = px (lonLatToWebMercator (tile2lon tileX zoom) (tile2lat (tileY + 1) zoom))"
  "minY (projectedBBox zoom tileX tileY)
     = py (lonLatToWebMercator (tile2lon tileX zoom) (tile2lat (tileY + 1) zoom))"
  "maxX (projectedBBox zoom tileX tileY)
     = px (lonLatToWebMercator (tile2lon (tileX + 1) zoom) (tile2lat tileY zoom))"
  "maxY (projectedBBox zoom tileX tileY)
     = py (lonLatToWebMercator (tile2lon (tileX + 1) zoom) (tile2lat tileY zoom))"
  by (simp_all add: projectedBBox_def Let_def)

lemma spec_x_eq: "px (lonLatToWebMercator lon lat) = spec_x lon"
  by (simp add: lonLatToWebMercator_def Let_def spec_x_def ORIGIN_SHIFT_def EARTH_RADIUS_def)

lemma spec_y_eq: "py (lonLatToWebMercator lon lat) = spec_y lat"
proof -
  have angle: "((90 + c) * pi) / 360 = pi / 4 + c * pi / 360" for c :: real
    by (simp add: field_simps)
  show ?thesis
    by (simp add: lonLatToWebMercator_def Let_def spec_y_def EARTH_RADIUS_def angle
        max.commute min.commute)
qed

lemma spec_lon_eq: "tile2lon x z = spec_lon x z"
  by (simp add: tile2lon_def spec_lon_def)

lemma spec_lat_eq: "tile2lat y z = spec_lat y z"
  by (simp add: tile2lat_def spec_lat_def)

lemma projectedBBox_spec: "projectedBBox zoom column row = spec_bbox zoom column row"
  by (simp add: projectedBBox_def Let_def spec_bbox_def spec_x_eq spec_y_eq spec_lon_eq spec_lat_eq)

section \<open>Rounding to binary64\<close>

text \<open>
  The error of one rounding, the numbers that round to themselves, and how to evaluate
  a rounding from the binade of its argument.
\<close>

lemma round_half_even_error: "\<bar>of_int (round_half_even r) - r\<bar> \<le> 1 / 2"
  unfolding round_half_even_def Let_def by (simp; linarith)

lemma round_half_even_int [simp]: "round_half_even (of_int k) = k"
  by (simp add: round_half_even_def)

lemma round_half_even_le:
  assumes "r \<le> of_int n"
  shows "round_half_even r \<le> n"
proof -
  have "\<lfloor>r\<rfloor> \<le> n" using assms by (simp add: floor_le_iff)
  moreover have "\<lfloor>r\<rfloor> + 1 \<le> n" if "r - of_int \<lfloor>r\<rfloor> \<noteq> 0"
  proof -
    have "of_int \<lfloor>r\<rfloor> < r" using that by linarith
    then have "of_int \<lfloor>r\<rfloor> < (of_int n :: real)" using assms by linarith
    then show ?thesis by simp
  qed
  ultimately show ?thesis
    unfolding round_half_even_def Let_def by auto
qed

lemma round_half_even_ge:
  assumes "of_int n \<le> r"
  shows "n \<le> round_half_even r"
proof -
  have "n \<le> \<lfloor>r\<rfloor>" using assms by (simp add: le_floor_iff)
  then show ?thesis
    unfolding round_half_even_def Let_def by auto
qed

lemma ulp_pos [simp]: "0 < ulp x"
  by (simp add: ulp_def)

lemma ulp_nonzero [simp]: "ulp x \<noteq> 0"
  by (simp add: ulp_def)

lemma ulp_nonneg [simp]: "0 \<le> ulp x"
  by (simp add: ulp_def)

lemma exponent_eqI:
  assumes "2 powr of_int e \<le> \<bar>x\<bar>" "\<bar>x\<bar> < 2 powr (of_int e + 1)" "- 1022 \<le> e"
  shows "exponent x = e"
proof -
  have pos: "0 < \<bar>x\<bar>"
    using assms(1) by (smt (verit) powr_gt_zero)
  have "of_int e \<le> log 2 \<bar>x\<bar>"
    using assms(1) pos by (simp add: le_log_iff)
  moreover have "log 2 \<bar>x\<bar> < of_int e + 1"
    using assms(2) pos by (simp add: log_less_iff)
  ultimately have "\<lfloor>log 2 \<bar>x\<bar>\<rfloor> = e"
    by (simp add: floor_eq_iff)
  then show ?thesis
    using assms(3) by (simp add: exponent_def)
qed

lemma floor_log2_bounds:
  assumes "x \<noteq> 0"
  shows "2 powr of_int \<lfloor>log 2 \<bar>x\<bar>\<rfloor> \<le> \<bar>x\<bar>" "\<bar>x\<bar> < 2 powr (of_int \<lfloor>log 2 \<bar>x\<bar>\<rfloor> + 1)"
proof -
  have pos: "0 < \<bar>x\<bar>" using assms by simp
  show "2 powr of_int \<lfloor>log 2 \<bar>x\<bar>\<rfloor> \<le> \<bar>x\<bar>"
    using le_log_iff [of 2 "\<bar>x\<bar>" "of_int \<lfloor>log 2 \<bar>x\<bar>\<rfloor>"] pos by simp
  have "log 2 \<bar>x\<bar> < of_int \<lfloor>log 2 \<bar>x\<bar>\<rfloor> + 1" by linarith
  then show "\<bar>x\<bar> < 2 powr (of_int \<lfloor>log 2 \<bar>x\<bar>\<rfloor> + 1)"
    using log_less_iff [of 2 "\<bar>x\<bar>" "of_int \<lfloor>log 2 \<bar>x\<bar>\<rfloor> + 1"] pos by simp
qed

lemma half_ulp_bound:
  assumes "x \<noteq> 0"
  shows "ulp x / 2 \<le> \<bar>x\<bar> / 2 ^ 53 + 2 powr (- 1075)"
proof (cases "- 1022 \<le> \<lfloor>log 2 \<bar>x\<bar>\<rfloor>")
  case True
  then have e: "exponent x = \<lfloor>log 2 \<bar>x\<bar>\<rfloor>"
    by (simp add: exponent_def)
  have "ulp x / 2 = 2 powr (of_int (exponent x) + (- 53))"
    by (simp add: ulp_def powr_diff powr_add)
  also have "\<dots> = 2 powr of_int (exponent x) * 2 powr (- 53)"
    by (simp only: powr_add)
  also have "\<dots> \<le> \<bar>x\<bar> * 2 powr (- 53)"
    using floor_log2_bounds(1) [OF assms] by (simp add: e)
  also have "\<dots> = \<bar>x\<bar> / 2 ^ 53"
    by (simp add: powr_minus powr_numeral field_simps)
  finally show ?thesis
    by (smt (verit) powr_gt_zero)
next
  case False
  then have e: "exponent x = - 1022"
    by (simp add: exponent_def)
  have "ulp x / 2 = 2 powr (- 1075)"
    by (simp add: ulp_def e powr_diff) (simp add: powr_minus powr_numeral field_simps)
  then show ?thesis
    by simp
qed

lemma fl_round_error:
  assumes "x \<noteq> 0"
  shows "\<bar>of_int (round_half_even (x / ulp x)) * ulp x - x\<bar> \<le> ulp x / 2"
proof -
  have "of_int (round_half_even (x / ulp x)) * ulp x - x
          = (of_int (round_half_even (x / ulp x)) - x / ulp x) * ulp x"
    using ulp_pos [of x] by (simp add: field_simps)
  then have "\<bar>of_int (round_half_even (x / ulp x)) * ulp x - x\<bar>
          = \<bar>of_int (round_half_even (x / ulp x)) - x / ulp x\<bar> * ulp x"
    by (simp add: abs_mult abs_of_pos)
  also have "\<dots> \<le> (1 / 2) * ulp x"
    by (intro mult_right_mono round_half_even_error) simp
  finally show ?thesis by simp
qed

lemma exponent_le_1023:
  assumes "x \<noteq> 0" "\<bar>x\<bar> < 2 ^ 1024"
  shows "exponent x \<le> 1023"
proof -
  have "(2 :: real) powr 1024 = 2 ^ 1024"
    by (simp add: powr_numeral)
  then have "2 powr of_int \<lfloor>log 2 \<bar>x\<bar>\<rfloor> < (2 :: real) powr 1024"
    using floor_log2_bounds(1) [OF assms(1)] assms(2) by linarith
  from powr_less_cancel [OF this]
  have "of_int \<lfloor>log 2 \<bar>x\<bar>\<rfloor> < (1024 :: real)"
    by simp
  then have "\<lfloor>log 2 \<bar>x\<bar>\<rfloor> \<le> 1023"
    by linarith
  then show ?thesis
    by (simp add: exponent_def)
qed

lemma abs_less_next_binade:
  assumes "x \<noteq> 0"
  shows "\<bar>x\<bar> < 2 powr (of_int (exponent x) + 1)"
proof -
  have "\<lfloor>log 2 \<bar>x\<bar>\<rfloor> \<le> exponent x"
    by (simp add: exponent_def)
  then have "(2 :: real) powr (of_int \<lfloor>log 2 \<bar>x\<bar>\<rfloor> + 1) \<le> 2 powr (of_int (exponent x) + 1)"
    by (intro powr_mono) simp_all
  then show ?thesis
    using floor_log2_bounds(2) [OF assms] by linarith
qed

lemma linear_below_overflow:
  fixes r x u B :: real
  assumes "0 < B" "\<bar>r - x\<bar> \<le> u / 2" "\<bar>x\<bar> < 18014398509481984 * B" "u \<le> 2 * B"
  shows "\<bar>r\<bar> < 36028797018963968 * B"
  using assms by linarith

lemma below_overflow:
  fixes r x u :: real
  assumes "\<bar>r - x\<bar> \<le> u / 2" "\<bar>x\<bar> < 2 ^ 1023" "u \<le> 2 ^ 970"
  shows "\<bar>r\<bar> < 2 ^ 1024"
proof -
  define B :: real where "B = 2 ^ 969"
  have B: "(2::real) ^ 970 = 2 * B" "(2::real) ^ 1023 = 18014398509481984 * B"
    "(2::real) ^ 1024 = 36028797018963968 * B"
    by (simp_all add: B_def)
  have "0 < B" by (simp add: B_def)
  then show ?thesis
    using assms unfolding B by (rule linear_below_overflow)
qed

text \<open>The largest double, and the rounding error below it.\<close>

lemma fl_error:
  assumes "\<bar>x\<bar> \<le> 2 ^ 1024 - 2 ^ 971"
  shows "\<exists>w. fl x = Finite w \<and> \<bar>w - x\<bar> \<le> \<bar>x\<bar> / 2 ^ 53 + 2 powr (- 1075)"
proof (cases "x = 0")
  case True
  then show ?thesis by (simp add: fl_def)
next
  case False
  define r where "r = of_int (round_half_even (x / ulp x)) * ulp x"
  have err: "\<bar>r - x\<bar> \<le> ulp x / 2"
    unfolding r_def by (rule fl_round_error [OF False])
  have lt: "\<bar>x\<bar> < 2 ^ 1024"
    using assms by simp
  have e_le: "exponent x \<le> 1023"
    by (rule exponent_le_1023 [OF False lt])
  have fin: "\<bar>r\<bar> < 2 ^ 1024"
  proof (cases "exponent x = 1023")
    case True
    have u: "ulp x = 2 ^ 971"
      by (simp add: ulp_def True powr_numeral)
    have "\<bar>x / ulp x\<bar> \<le> of_int (2 ^ 53 - 1)"
      using assms by (simp add: u field_simps)
    then have "x / ulp x \<le> of_int (2 ^ 53 - 1)" "of_int (- (2 ^ 53 - 1)) \<le> x / ulp x"
      by (simp_all only: abs_le_iff of_int_minus) linarith+
    then have "round_half_even (x / ulp x) \<le> 2 ^ 53 - 1" "- (2 ^ 53 - 1) \<le> round_half_even (x / ulp x)"
      using round_half_even_le [of "x / ulp x" "2 ^ 53 - 1"]
        round_half_even_ge [of "- (2 ^ 53 - 1)" "x / ulp x"] by blast+
    then have "\<bar>real_of_int (round_half_even (x / ulp x))\<bar> \<le> 2 ^ 53 - 1"
      by (simp add: abs_le_iff)
    then have "\<bar>r\<bar> \<le> (2 ^ 53 - 1) * 2 ^ 971"
      unfolding r_def u abs_mult by (intro mult_mono) simp_all
    then show ?thesis by simp
  next
    case False
    then have e: "of_int (exponent x) \<le> (1022 :: real)"
      using e_le by linarith
    have "\<bar>x\<bar> < 2 powr (of_int (exponent x) + 1)"
      by (rule abs_less_next_binade [OF \<open>x \<noteq> 0\<close>])
    also have "\<dots> \<le> 2 powr 1023"
      using e by (intro powr_mono) simp_all
    finally have x: "\<bar>x\<bar> < 2 ^ 1023"
      by (simp add: powr_numeral)
    have "ulp x \<le> 2 powr 970"
      unfolding ulp_def using e by (intro powr_mono) simp_all
    then have "ulp x \<le> 2 ^ 970"
      by (simp add: powr_numeral)
    with err x show ?thesis
      by (rule below_overflow)
  qed
  have "fl x = Finite r"
    using False fin by (simp add: fl_def r_def Let_def)
  moreover have "\<bar>r - x\<bar> \<le> \<bar>x\<bar> / 2 ^ 53 + 2 powr (- 1075)"
    using err half_ulp_bound [OF False] by linarith
  ultimately show ?thesis by blast
qed

lemma fl_zero [simp]: "fl 0 = Finite 0"
  by (simp add: fl_def)

lemma fl_exact:
  assumes x: "x = of_int m * 2 powr of_int k" and m: "\<bar>m\<bar> < 2 ^ 53"
    and k: "- 1074 \<le> k" and fin: "\<bar>x\<bar> < 2 ^ 1024"
  shows "fl x = Finite x"
proof (cases "m = 0")
  case True
  then show ?thesis by (simp add: x)
next
  case False
  then have nz: "x \<noteq> 0"
    by (simp add: x)
  have "\<bar>real_of_int m\<bar> < 2 ^ 53"
    using m by (metis of_int_abs of_int_less_numeral_power_cancel_iff)
  then have "\<bar>x\<bar> < 2 ^ 53 * 2 powr of_int k"
    unfolding x abs_mult by (simp add: mult_strict_right_mono)
  also have "\<dots> = 2 powr (53 + of_int k)"
    by (simp add: powr_add powr_numeral)
  finally have "2 powr of_int \<lfloor>log 2 \<bar>x\<bar>\<rfloor> < (2 :: real) powr (53 + of_int k)"
    using floor_log2_bounds(1) [OF nz] by linarith
  from powr_less_cancel [OF this]
  have "\<lfloor>log 2 \<bar>x\<bar>\<rfloor> \<le> k + 52"
    by simp
  then have e: "exponent x - 52 \<le> k"
    using k by (simp add: exponent_def)
  define d where "d = nat (k - (exponent x - 52))"
  have d: "of_int k = of_int (exponent x) - 52 + real d"
    using e by (simp add: d_def)
  have "x / ulp x = of_int m * (2 powr of_int k / 2 powr (of_int (exponent x) - 52))"
    by (simp add: x ulp_def)
  also have "2 powr of_int k / 2 powr (of_int (exponent x) - 52) = (2 :: real) powr real d"
    by (simp add: d powr_add)
  also have "\<dots> = 2 ^ d"
    by (simp add: powr_realpow)
  finally have "x / ulp x = of_int (m * 2 ^ d)"
    by simp
  then have "round_half_even (x / ulp x) = m * 2 ^ d"
    by (simp only: round_half_even_int)
  then have "of_int (round_half_even (x / ulp x)) * ulp x = (x / ulp x) * ulp x"
    using \<open>x / ulp x = of_int (m * 2 ^ d)\<close> by simp
  then have "of_int (round_half_even (x / ulp x)) * ulp x = x"
    by simp
  then show ?thesis
    using nz fin by (simp add: fl_def Let_def)
qed

lemma fl_int:
  assumes "\<bar>m\<bar> < 2 ^ 53"
  shows "fl (of_int m) = Finite (of_int m)"
proof (rule fl_exact [where m = m and k = 0])
  show "of_int m = of_int m * 2 powr of_int 0" by simp
  show "\<bar>m\<bar> < 2 ^ 53" by (rule assms)
  show "- 1074 \<le> (0 :: int)" by simp
  have "\<bar>real_of_int m\<bar> < 2 ^ 53"
    using assms by (metis of_int_abs of_int_less_numeral_power_cancel_iff)
  then show "\<bar>real_of_int m\<bar> < 2 ^ 1024"
    by (rule less_trans) simp
qed

lemma fl_pow2:
  assumes "- 1074 \<le> k" "k \<le> 1023"
  shows "fl (2 powr of_int k) = Finite (2 powr of_int k)"
proof (rule fl_exact [where m = 1 and k = k])
  show "2 powr of_int k = of_int 1 * 2 powr of_int k" by simp
  show "\<bar>1 :: int\<bar> < 2 ^ 53" by simp
  show "- 1074 \<le> k" by (rule assms)
  have "(2 :: real) powr of_int k \<le> 2 powr 1023"
    using assms(2) by (intro powr_mono) simp_all
  also have "\<dots> < 2 powr 1024"
    by (intro powr_less_mono) simp_all
  finally show "\<bar>2 powr of_int k :: real\<bar> < 2 ^ 1024"
    by (simp add: powr_numeral)
qed

lemma fl_eval:
  assumes "2 powr of_int e \<le> \<bar>x\<bar>" "\<bar>x\<bar> < 2 powr (of_int e + 1)" "- 1022 \<le> e"
    and "round_half_even (x / 2 powr (of_int e - 52)) = k"
    and "\<bar>of_int k * 2 powr (of_int e - 52)\<bar> < (2 ^ 1024 :: real)"
  shows "fl x = Finite (of_int k * 2 powr (of_int e - 52))"
proof -
  have "exponent x = e"
    by (rule exponent_eqI [OF assms(1-3)])
  moreover have "x \<noteq> 0"
    using assms(1) by (smt (verit) powr_gt_zero)
  ultimately show ?thesis
    using assms(4,5) by (simp add: fl_def ulp_def Let_def)
qed

lemma fl_overflow:
  assumes "2 powr of_int e \<le> \<bar>x\<bar>" "\<bar>x\<bar> < 2 powr (of_int e + 1)" "- 1022 \<le> e"
    and "round_half_even (x / 2 powr (of_int e - 52)) = k"
    and "(2 ^ 1024 :: real) \<le> \<bar>of_int k * 2 powr (of_int e - 52)\<bar>" and "0 < x"
  shows "fl x = PosInfinity"
proof -
  have "exponent x = e"
    by (rule exponent_eqI [OF assms(1-3)])
  then show ?thesis
    using assms(4,5,6) by (simp add: fl_def ulp_def Let_def)
qed

text \<open>Concrete roundings.\<close>

lemma fl_east_55: "fl (360 / 2 ^ 55 - 180) = Finite (- 180)"
proof -
  have "fl (360 / 2 ^ 55 - 180) = Finite (of_int (- 6333186975989760) * 2 powr (of_int 7 - 52))"
  proof (rule fl_eval)
    show "round_half_even ((360 / 2 ^ 55 - 180) / 2 powr (of_int 7 - 52)) = - 6333186975989760"
      by (simp add: round_half_even_def powr_minus powr_numeral field_simps)
  qed (simp_all add: powr_minus powr_numeral)
  then show ?thesis
    by (simp add: powr_minus powr_numeral)
qed

section \<open>Roundings of the constants of the code\<close>

lemma js_lt_irrefl [simp]: "\<not> js_lt a a"
  by (cases a) simp_all

lemma fl_numeral_int [simp]:
  "fl 1 = Finite 1" "fl (- 180) = Finite (- 180)"
  using fl_int [of 1] fl_int [of "- 180"] by simp_all

lemma fl_two_pow_55: "fl (2 ^ 55) = Finite (2 ^ 55)" "fl (1 / 2 ^ 55) = Finite (1 / 2 ^ 55)"
  using fl_pow2 [of 55] fl_pow2 [of "- 55"] by (simp_all add: powr_minus powr_numeral field_simps)

lemma fl_360_over_2_55: "fl (360 / 2 ^ 55) = Finite (360 / 2 ^ 55)"
proof -
  have "fl (360 / 2 ^ 55) = Finite (360 / 2 ^ 55 :: real)"
  proof (rule fl_exact [where m = 45 and k = "- 52"])
    show "(360 / 2 ^ 55 :: real) = of_int 45 * 2 powr of_int (- 52)"
      by (simp add: powr_minus powr_numeral)
  qed simp_all
  then show ?thesis .
qed

lemma tile2lon_d_west_55: "tile2lon_d (Finite 0) (Finite 55) = Finite (- 180)"
  using fl_two_pow_55
  by (simp add: tile2lon_d_def js_sub_def powr_numeral)

lemma tile2lon_d_east_55: "tile2lon_d (js_add (Finite 0) (Finite 1)) (Finite 55) = Finite (- 180)"
  using fl_360_over_2_55 fl_east_55 fl_two_pow_55
  by (simp add: tile2lon_d_def js_sub_def powr_numeral)

lemma fl_clamp_bound: "fl 89.9999 = Finite (3166589969557671 / 2 ^ 45)"
proof -
  have "fl 89.9999 = Finite (of_int 6333179939115342 * 2 powr (of_int 6 - 52))"
  proof (rule fl_eval)
    show "round_half_even (89.9999 / 2 powr (of_int 6 - 52)) = 6333179939115342"
      by (simp add: round_half_even_def powr_minus powr_numeral field_simps)
  qed (simp_all add: powr_minus powr_numeral)
  then show ?thesis
    by (simp add: powr_minus powr_numeral)
qed

lemma fl_degrees_per_radian: "fl (180 / MATH_PI) = Finite (1007958012753983 / 2 ^ 44)"
proof -
  have "fl (180 / MATH_PI) = Finite (of_int 8063664102031864 * 2 powr (of_int 5 - 52))"
  proof (rule fl_eval)
    show "round_half_even (180 / MATH_PI / 2 powr (of_int 5 - 52)) = 8063664102031864"
      by (simp add: MATH_PI_def round_half_even_def powr_minus powr_numeral field_simps)
  qed (simp_all add: MATH_PI_def powr_minus powr_numeral)
  then show ?thesis
    by (simp add: powr_minus powr_numeral)
qed

lemma fl_minus_90: "fl (1007958012753983 / 2 ^ 44 * (- (MATH_PI / 2))) = Finite (- 90)"
proof -
  have "fl (1007958012753983 / 2 ^ 44 * (- (MATH_PI / 2)))
      = Finite (of_int (- 6333186975989760) * 2 powr (of_int 6 - 52))"
  proof (rule fl_eval)
    show "round_half_even (1007958012753983 / 2 ^ 44 * (- (MATH_PI / 2)) / 2 powr (of_int 6 - 52))
        = - 6333186975989760"
      by (simp add: MATH_PI_def round_half_even_def powr_minus powr_numeral field_simps)
  qed (simp_all add: MATH_PI_def powr_minus powr_numeral)
  then show ?thesis
    by (simp add: powr_minus powr_numeral)
qed

lemma fl_two_pi: "fl (2 * MATH_PI) = Finite (2 * MATH_PI)"
proof (rule fl_exact [where m = 884279719003555 and k = "- 47"])
  show "2 * MATH_PI = of_int 884279719003555 * 2 powr of_int (- 47)"
    by (simp add: MATH_PI_def powr_minus powr_numeral)
qed (simp_all add: MATH_PI_def)

lemma fl_two_pi_overflow: "fl (2 * MATH_PI * 2 ^ 1022) = PosInfinity"
proof (rule fl_overflow [where e = 1024 and k = 7074237752028440])
  show "round_half_even (2 * MATH_PI * 2 ^ 1022 / 2 powr (of_int 1024 - 52)) = 7074237752028440"
    by (simp add: MATH_PI_def round_half_even_def powr_minus powr_numeral field_simps)
qed (simp_all add: MATH_PI_def powr_minus powr_numeral)

lemma fl_pow_1022: "fl (2 ^ 1022) = Finite (2 ^ 1022)"
  using fl_pow2 [of 1022] by (simp add: powr_numeral)

lemma tile2lat_d_1022:
  "tile2lat_d ideal_math (Finite (2 ^ 1022)) (Finite 1022) = Finite (- 90)"
proof -
  have a: "js_mul (Finite 2) (Finite MATH_PI) = Finite (2 * MATH_PI)"
    using fl_two_pi by simp
  have b: "js_mul (Finite (2 * MATH_PI)) (Finite (2 ^ 1022)) = PosInfinity"
    using fl_two_pi_overflow by simp
  have p: "js_pow2 (Finite 1022) = Finite (2 ^ 1022)"
    using fl_pow_1022 by (simp add: powr_numeral)
  have d: "js_div PosInfinity (Finite (2 ^ 1022)) = PosInfinity"
    by simp
  have n: "js_sub (Finite MATH_PI) PosInfinity = NegInfinity"
    by (simp add: js_sub_def)
  have e1: "js_exp ideal_math NegInfinity = Finite 0"
    and e2: "js_exp ideal_math (js_neg NegInfinity) = PosInfinity"
    by simp_all
  have s: "js_sub (Finite 0) PosInfinity = NegInfinity"
    by (simp add: js_sub_def)
  have h: "js_mul (Finite 0.5) NegInfinity = NegInfinity"
    by simp
  have at: "js_atan ideal_math NegInfinity = Finite (- (MATH_PI / 2))"
    by simp
  have c: "js_div (Finite 180) (Finite MATH_PI) = Finite (1007958012753983 / 2 ^ 44)"
    using fl_degrees_per_radian by (simp add: MATH_PI_def)
  have r: "js_mul (Finite (1007958012753983 / 2 ^ 44)) (Finite (- (MATH_PI / 2))) = Finite (- 90)"
    using fl_minus_90 by simp
  show ?thesis
    unfolding tile2lat_d_def Let_def by (simp only: a b p d n e1 e2 s h at c r)
qed

section \<open>Error bounds for the tile arithmetic\<close>

text \<open>
  Tighter bounds on \<open>pi\<close>, Lipschitz bounds for the functions of the projection from
  the mean value theorem, and the distance between each value the code computes in
  doubles and the value of the same expression over the reals.
\<close>

lemma arctan_fifth_tight:
  "(19739555984988075836 / 10 ^ 20 :: real) < arctan (1/5)"
  "arctan (1/5) < (19739555984988075838 / 10 ^ 20 :: real)"
proof -
  have "(\<Sum>i<2*7. (-1)^i * (1 / real (i*2+1) * (1/5)^(i*2+1))) \<le> arctan (1/5 :: real)"
    by (rule arctan_partial_sums) simp_all
  then show "(19739555984988075836 / 10 ^ 20 :: real) < arctan (1/5)"
    by (simp add: eval_nat_numeral)
  have "arctan (1/5 :: real) \<le> (\<Sum>i<2*6+1. (-1)^i * (1 / real (i*2+1) * (1/5)^(i*2+1)))"
    by (rule arctan_partial_sums) simp_all
  then show "arctan (1/5) < (19739555984988075838 / 10 ^ 20 :: real)"
    by (simp add: eval_nat_numeral)
qed

lemma arctan_239_tight:
  "(41840760020747238644 / 10 ^ 22 :: real) < arctan (1/239)"
  "arctan (1/239) < (41840760020747238646 / 10 ^ 22 :: real)"
proof -
  have "(\<Sum>i<2*2. (-1)^i * (1 / real (i*2+1) * (1/239)^(i*2+1))) \<le> arctan (1/239 :: real)"
    by (rule arctan_partial_sums) simp_all
  then show "(41840760020747238644 / 10 ^ 22 :: real) < arctan (1/239)"
    by (simp add: eval_nat_numeral)
  have "arctan (1/239 :: real) \<le> (\<Sum>i<2*2+1. (-1)^i * (1 / real (i*2+1) * (1/239)^(i*2+1)))"
    by (rule arctan_partial_sums) simp_all
  then show "arctan (1/239) < (41840760020747238646 / 10 ^ 22 :: real)"
    by (simp add: eval_nat_numeral)
qed

lemma pi_tight:
  "(314159265358979323 / 10 ^ 17 :: real) < pi" "pi < (314159265358979324 / 10 ^ 17 :: real)"
proof -
  have m: "pi = 16 * arctan (1/5) - 4 * arctan (1/239)"
    using machin by simp
  have a: "(19739555984988075836 / 100000000000000000000 :: real) < arctan (1/5)"
    using arctan_fifth_tight(1) by simp
  have b: "arctan (1/5) < (19739555984988075838 / 100000000000000000000 :: real)"
    using arctan_fifth_tight(2) by simp
  have c: "(41840760020747238644 / 10000000000000000000000 :: real) < arctan (1/239)"
    using arctan_239_tight(1) by simp
  have d: "arctan (1/239) < (41840760020747238646 / 10000000000000000000000 :: real)"
    using arctan_239_tight(2) by simp
  have "(314159265358979323 / 100000000000000000 :: real) < pi"
    unfolding m using a d by linarith
  then show "(314159265358979323 / 10 ^ 17 :: real) < pi" by simp
  have "pi < (314159265358979324 / 100000000000000000 :: real)"
    unfolding m using b c by linarith
  then show "pi < (314159265358979324 / 10 ^ 17 :: real)" by simp
qed

lemma fl_close:
  assumes "\<bar>x\<bar> \<le> B" "1 \<le> B" "B \<le> 2 ^ 1024 - 2 ^ 971"
  shows "\<exists>w. fl x = Finite w \<and> \<bar>w - x\<bar> \<le> B / 2 ^ 52"
proof -
  have "\<bar>x\<bar> \<le> 2 ^ 1024 - 2 ^ 971"
    using assms(1,3) by (rule order_trans)
  then obtain w where w: "fl x = Finite w" "\<bar>w - x\<bar> \<le> \<bar>x\<bar> / 2 ^ 53 + 2 powr (- 1075)"
    using fl_error by blast
  have "(2 :: real) powr (- 1075) \<le> 2 powr (- 53)"
    by (rule powr_mono) simp_all
  also have "(2 :: real) powr (- 53) = 1 / 2 ^ 53"
    by (simp add: powr_minus_divide powr_numeral)
  finally have eta: "(2 :: real) powr (- 1075) \<le> 1 / 2 ^ 53" .
  have "\<bar>x\<bar> / 2 ^ 53 \<le> B / 2 ^ 53"
    using assms(1) by (simp add: divide_right_mono)
  moreover have "1 / 2 ^ 53 \<le> B / (2 ^ 53 :: real)"
    using assms(2) by (simp add: divide_right_mono)
  moreover have "B / 2 ^ 53 + B / 2 ^ 53 = B / 2 ^ 52"
    by simp
  ultimately have "\<bar>w - x\<bar> \<le> B / 2 ^ 52"
    using w(2) eta by linarith
  then show ?thesis
    using w(1) by blast
qed

lemma lipschitz:
  fixes f :: "real \<Rightarrow> real"
  assumes d: "\<And>x. lo \<le> x \<Longrightarrow> x \<le> hi \<Longrightarrow> DERIV f x :> f' x"
    and k: "\<And>x. lo \<le> x \<Longrightarrow> x \<le> hi \<Longrightarrow> \<bar>f' x\<bar> \<le> K"
    and a: "lo \<le> a" "a \<le> hi" and b: "lo \<le> b" "b \<le> hi"
  shows "\<bar>f a - f b\<bar> \<le> K * \<bar>a - b\<bar>"
proof -
  have main: "\<bar>f t - f s\<bar> \<le> K * \<bar>t - s\<bar>" if "lo \<le> s" "s < t" "t \<le> hi" for s t
  proof -
    have "\<exists>z. s < z \<and> z < t \<and> f t - f s = (t - s) * f' z"
      using that by (intro MVT2) (auto intro: d)
    then obtain z where z: "s < z" "z < t" "f t - f s = (t - s) * f' z"
      by blast
    have "\<bar>f' z\<bar> \<le> K"
      using z that by (intro k) simp_all
    then have "\<bar>t - s\<bar> * \<bar>f' z\<bar> \<le> \<bar>t - s\<bar> * K"
      by (intro mult_left_mono) simp_all
    then show ?thesis
      by (simp add: z(3) abs_mult mult.commute)
  qed
  consider "a < b" | "a = b" | "b < a" by linarith
  then show ?thesis
  proof cases
    case 1
    then show ?thesis using main [of a b] a b by (simp add: abs_minus_commute)
  next
    case 2
    then show ?thesis by simp
  next
    case 3
    then show ?thesis using main [of b a] a b by simp
  qed
qed

lemma exp_4_le: "exp (4 :: real) \<le> 81"
proof -
  have "exp (4 :: real) = exp 1 ^ 4"
    by (metis exp_of_nat_mult mult.right_neutral of_nat_numeral)
  also have "\<dots> \<le> 3 ^ 4"
    by (intro power_mono) (simp_all add: exp_le)
  finally show ?thesis by simp
qed

lemma exp_lipschitz:
  fixes a b :: real
  assumes "\<bar>a\<bar> \<le> 4" "\<bar>b\<bar> \<le> 4"
  shows "\<bar>exp a - exp b\<bar> \<le> 81 * \<bar>a - b\<bar>"
proof (rule lipschitz [where lo = "- 4" and hi = 4 and f' = exp])
  fix x :: real
  assume "- 4 \<le> x" "x \<le> 4"
  show "DERIV exp x :> exp x" by (rule DERIV_exp)
  have "exp x \<le> exp 4" using \<open>x \<le> 4\<close> by simp
  then have "exp x \<le> 81" using exp_4_le by (rule order_trans)
  then show "\<bar>exp x\<bar> \<le> 81" by simp
qed (use assms in simp_all)

lemma arctan_lipschitz:
  fixes a b :: real
  shows "\<bar>arctan a - arctan b\<bar> \<le> \<bar>a - b\<bar>"
proof -
  have "\<bar>arctan a - arctan b\<bar> \<le> 1 * \<bar>a - b\<bar>"
  proof (rule lipschitz [where lo = "min a b" and hi = "max a b" and f' = "\<lambda>x. inverse (1 + x\<^sup>2)"])
    fix x :: real
    show "DERIV arctan x :> inverse (1 + x\<^sup>2)" by (rule DERIV_arctan)
    have "1 \<le> 1 + x\<^sup>2" by simp
    then have "inverse (1 + x\<^sup>2) \<le> 1"
      by (rule inverse_le_1_iff [THEN iffD2, OF disjI2])
    moreover have "0 \<le> inverse (1 + x\<^sup>2)"
      by (simp add: add_nonneg_nonneg)
    ultimately show "\<bar>inverse (1 + x\<^sup>2)\<bar> \<le> 1" by simp
  qed simp_all
  then show ?thesis by simp
qed

lemma ln_lipschitz:
  fixes a b :: real
  assumes "1 / 50 \<le> a" "a \<le> 50" "1 / 50 \<le> b" "b \<le> 50"
  shows "\<bar>ln a - ln b\<bar> \<le> 50 * \<bar>a - b\<bar>"
proof (rule lipschitz [where lo = "1 / 50" and hi = 50 and f' = inverse])
  fix x :: real
  assume x: "1 / 50 \<le> x" "x \<le> 50"
  then show "DERIV ln x :> inverse x" by (intro DERIV_ln) simp
  have "inverse x \<le> inverse (1 / 50)"
    using x by (intro le_imp_inverse_le) simp_all
  then show "\<bar>inverse x\<bar> \<le> 50" using x by simp
qed (use assms in simp_all)

lemma ln_abs_le:
  fixes a :: real
  assumes "1 / 50 \<le> a" "a \<le> 50"
  shows "\<bar>ln a\<bar> \<le> 50"
proof -
  have "ln a \<le> a - 1" using assms by (intro ln_le_minus_one) simp
  moreover have "- ln a = ln (inverse a)" using assms by (simp add: ln_inverse)
  moreover have "ln (inverse a) \<le> inverse a - 1" using assms by (intro ln_le_minus_one) simp
  moreover have "inverse a \<le> inverse (1 / 50)"
    using assms by (intro le_imp_inverse_le) simp_all
  ultimately show ?thesis using assms by simp
qed

lemma pi_gt_314: "(314 / 100 :: real) < pi"
  using pi_tight(1) by simp

lemma tan_ge_self:
  fixes x :: real
  assumes "0 \<le> x" "x < pi / 2"
  shows "x \<le> tan x"
proof -
  have "arctan (tan x) = x"
    using assms by (intro arctan_tan) simp_all
  moreover have "\<bar>arctan (tan x) - arctan 0\<bar> \<le> \<bar>tan x - 0\<bar>"
    by (rule arctan_lipschitz)
  moreover have "0 \<le> tan x"
  proof (cases "x = 0")
    case False
    then have "0 < tan x" using assms by (intro tan_gt_zero) simp_all
    then show ?thesis by simp
  qed simp
  ultimately show ?thesis by simp
qed

lemma tan_range:
  fixes x :: real
  assumes "1 / 25 \<le> x" "x \<le> 153 / 100"
  shows "1 / 25 \<le> tan x" "tan x \<le> 25"
proof -
  have hi: "x < pi / 2" using assms pi_gt_314 by linarith
  show "1 / 25 \<le> tan x"
    using tan_ge_self [of x] assms hi by linarith
  have c: "0 \<le> pi / 2 - x" "pi / 2 - x < pi / 2" "1 / 25 \<le> pi / 2 - x"
    using assms pi_gt_314 by linarith+
  have "1 / 25 \<le> tan (pi / 2 - x)"
    using tan_ge_self [OF c(1,2)] c(3) by linarith
  then have "inverse (tan (pi / 2 - x)) \<le> inverse (1 / 25)"
    by (intro le_imp_inverse_le) simp_all
  moreover have "tan x = inverse (tan (pi / 2 - x))"
    using tan_cot [of "pi / 2 - x"] by simp
  ultimately show "tan x \<le> 25" by simp
qed

lemma DERIV_ln_tan:
  fixes x :: real
  assumes "1 / 25 \<le> x" "x \<le> 153 / 100"
  shows "DERIV (\<lambda>x. ln (tan x)) x :> inverse (tan x) + tan x"
proof -
  have hi: "0 < x" "x < pi / 2" using assms pi_gt_314 by linarith+
  have c: "cos x \<noteq> 0" using hi cos_gt_zero_pi [of x] by simp
  have t: "0 < tan x" using tan_range(1) [OF assms] by linarith
  have "DERIV (\<lambda>x. ln (tan x)) x :> inverse ((cos x)\<^sup>2) * inverse (tan x)"
    using c t by (auto intro!: derivative_eq_intros simp: field_simps)
  moreover have "inverse ((cos x)\<^sup>2) = 1 + (tan x)\<^sup>2"
    using tan_sec [OF c] by (simp add: power_inverse)
  moreover have "(1 + (tan x)\<^sup>2) * inverse (tan x) = inverse (tan x) + tan x"
    using t by (simp add: field_simps power2_eq_square)
  ultimately show ?thesis by simp
qed

lemma ln_tan_lipschitz:
  fixes a b :: real
  assumes "1 / 25 \<le> a" "a \<le> 153 / 100" "1 / 25 \<le> b" "b \<le> 153 / 100"
  shows "\<bar>ln (tan a) - ln (tan b)\<bar> \<le> 50 * \<bar>a - b\<bar>"
proof (rule lipschitz [where lo = "1 / 25" and hi = "153 / 100"
      and f = "\<lambda>x. ln (tan x)" and f' = "\<lambda>x. inverse (tan x) + tan x"])
  fix x :: real
  assume x: "1 / 25 \<le> x" "x \<le> 153 / 100"
  show "DERIV (\<lambda>x. ln (tan x)) x :> inverse (tan x) + tan x"
    using x by (rule DERIV_ln_tan)
  note r = tan_range [OF x]
  have "inverse (tan x) \<le> inverse (1 / 25)"
    using r(1) by (intro le_imp_inverse_le) simp_all
  moreover have "0 < inverse (tan x)" using r(1) by simp
  ultimately show "\<bar>inverse (tan x) + tan x\<bar> \<le> 50"
    using r by simp
qed (use assms in simp_all)

lemma closeE:
  assumes "close r v" "\<bar>v\<bar> \<le> B"
  obtains w where "r = Finite w" "\<bar>w - v\<bar> \<le> (B + 1) / 2 ^ 45"
proof -
  obtain w where w: "r = Finite w" "\<bar>w - v\<bar> \<le> \<bar>v\<bar> / 2 ^ 45 + 2 powr (- 1075)"
    using assms(1) by (auto simp: close_def split: jsnumber.splits)
  have "(2 :: real) powr (- 1075) \<le> 2 powr (- 45)"
    by (rule powr_mono) simp_all
  also have "(2 :: real) powr (- 45) = 1 / 2 ^ 45"
    by (simp add: powr_minus_divide powr_numeral)
  finally have eta: "(2 :: real) powr (- 1075) \<le> 1 / 2 ^ 45" .
  have "\<bar>v\<bar> / 2 ^ 45 \<le> B / 2 ^ 45"
    using assms(2) by (simp add: divide_right_mono)
  moreover have "(B + 1) / 2 ^ 45 = B / 2 ^ 45 + 1 / 2 ^ 45"
    by (simp add: add_divide_distrib)
  ultimately have "\<bar>w - v\<bar> \<le> (B + 1) / 2 ^ 45"
    using w(2) eta by linarith
  then show ?thesis using that w(1) by blast
qed

lemma fl_is_close:
  assumes "\<bar>v\<bar> \<le> 2 ^ 1024 - 2 ^ 971"
  shows "close (fl v) v"
proof -
  obtain w where w: "fl v = Finite w" "\<bar>w - v\<bar> \<le> \<bar>v\<bar> / 2 ^ 53 + 2 powr (- 1075)"
    using fl_error [OF assms] by blast
  have "\<bar>v\<bar> / 2 ^ 53 \<le> \<bar>v\<bar> / 2 ^ 45"
    by (intro divide_left_mono) simp_all
  then show ?thesis
    using w by (simp add: close_def)
qed

lemma small_below_overflow:
  fixes v :: real
  assumes "\<bar>v\<bar> \<le> 100"
  shows "\<bar>v\<bar> \<le> 2 ^ 1024 - 2 ^ 971"
proof -
  have "(100 :: real) \<le> 2 ^ 1024 - 2 ^ 971" by simp
  with assms show ?thesis by (rule order_trans)
qed

lemma accurate_ideal_math: "accurate ideal_math"
proof -
  have e: "close (fl (exp v)) (exp v)" if "\<bar>v\<bar> \<le> 4" for v :: real
  proof -
    have "exp v \<le> exp 4" using that by simp
    then have "exp v \<le> 81" using exp_4_le by (rule order_trans)
    then show ?thesis by (intro fl_is_close small_below_overflow) simp
  qed
  have a: "close (fl (arctan v)) (arctan v)" for v :: real
  proof -
    have "\<bar>arctan v\<bar> < pi / 2" using arctan_bounded [of v] by linarith
    moreover have "pi / 2 < 100" using pi_tight(2) by simp
    ultimately show ?thesis by (intro fl_is_close small_below_overflow) simp
  qed
  have t: "close (fl (tan v)) (tan v)" if "1 / 25 \<le> v" "v \<le> 153 / 100" for v :: real
    using tan_range [OF that] by (intro fl_is_close small_below_overflow) simp
  have l: "close (fl (ln v)) (ln v)" if "1 / 50 \<le> v" "v \<le> 50" for v :: real
    using ln_abs_le [OF that] by (intro fl_is_close small_below_overflow) simp
  show ?thesis
    by (simp add: accurate_def ideal_math_def e a t l)
qed

lemma fl_close_small:
  assumes "\<bar>x\<bar> \<le> B" "1 \<le> B" "B \<le> 2 ^ 40"
  shows "\<exists>w. fl x = Finite w \<and> \<bar>w - x\<bar> \<le> B * (1 / 2 ^ 52)"
proof -
  have "(2 :: real) ^ 40 \<le> 2 ^ 1024 - 2 ^ 971" by simp
  with assms(3) have "B \<le> 2 ^ 1024 - 2 ^ 971" by (rule order_trans)
  from fl_close [OF assms(1,2) this] show ?thesis by simp
qed

lemma MATH_PI_close: "\<bar>MATH_PI - pi\<bar> \<le> 2 / 10 ^ 16"
  using pi_tight by (simp add: MATH_PI_def abs_le_iff)

lemma MATH_PI_range: "3 < MATH_PI" "MATH_PI < 7 / 2"
  by (simp_all add: MATH_PI_def)

lemma n_close:
  fixes y :: real and z :: nat
  assumes y: "0 \<le> y" "y \<le> 2 ^ z" and z: "z \<le> 1021"
  shows "\<exists>nd. js_sub (Finite MATH_PI)
                 (js_div (js_mul (js_mul (Finite 2) (Finite MATH_PI)) (Finite y))
                    (js_pow2 (Finite (real z)))) = Finite nd
              \<and> \<bar>nd - (pi - (2 * pi * y) / 2 powr real z)\<bar> \<le> 1 / 10 ^ 14"
proof -
  define u :: real where "u = 1 / 2 ^ 52"
  have u: "0 \<le> u" "u \<le> 23 / 100000000000000000"
    by (simp_all add: u_def)
  define q where "q = y / 2 ^ z"
  have q: "0 \<le> q" "q \<le> 1"
    using y by (simp_all add: q_def)
  have big: "7 * (2 :: real) ^ z \<le> 2 ^ 1024 - 2 ^ 971"
  proof -
    have "(2 :: real) ^ z \<le> 2 ^ 1021"
      using z by (intro power_increasing) simp_all
    then have "7 * (2 :: real) ^ z \<le> 7 * 2 ^ 1021" by simp
    also have "\<dots> \<le> 2 ^ 1024 - 2 ^ 971" by simp
    finally show ?thesis .
  qed
  have s1: "js_mul (Finite 2) (Finite MATH_PI) = Finite (2 * MATH_PI)"
    using fl_two_pi by simp
  have "\<bar>2 * MATH_PI * y\<bar> \<le> 7 * 2 ^ z"
  proof -
    have "2 * MATH_PI * y \<le> 7 * 2 ^ z"
      using y MATH_PI_range by (intro mult_mono) simp_all
    moreover have "0 \<le> 2 * MATH_PI * y"
      using y MATH_PI_range by simp
    ultimately show ?thesis by simp
  qed
  moreover have "1 \<le> 7 * (2 :: real) ^ z"
  proof -
    have "1 \<le> (2 :: real) ^ z" by (rule one_le_power) simp
    then show ?thesis by linarith
  qed
  ultimately have "\<exists>w. fl (2 * MATH_PI * y) = Finite w
      \<and> \<bar>w - 2 * MATH_PI * y\<bar> \<le> 7 * 2 ^ z / 2 ^ 52"
    using big by (intro fl_close)
  then obtain a where a: "fl (2 * MATH_PI * y) = Finite a"
      "\<bar>a - 2 * MATH_PI * y\<bar> \<le> 7 * 2 ^ z / 2 ^ 52"
    by blast
  have s2: "js_mul (Finite (2 * MATH_PI)) (Finite y) = Finite a"
    using a(1) by simp
  have s3: "js_pow2 (Finite (real z)) = Finite (2 ^ z)"
    using fl_pow2 [of "int z"] z by (simp add: powr_realpow)
  have a': "\<bar>a / 2 ^ z - 2 * MATH_PI * q\<bar> \<le> 7 * u"
  proof -
    have "a / 2 ^ z - 2 * MATH_PI * q = (a - 2 * MATH_PI * y) / 2 ^ z"
      by (simp add: q_def diff_divide_distrib)
    then have "\<bar>a / 2 ^ z - 2 * MATH_PI * q\<bar> = \<bar>a - 2 * MATH_PI * y\<bar> / 2 ^ z"
      by (simp add: abs_divide)
    also have "\<dots> \<le> (7 * 2 ^ z / 2 ^ 52) / 2 ^ z"
      using a(2) by (intro divide_right_mono) simp_all
    also have "\<dots> = 7 * u"
      by (simp add: u_def)
    finally show ?thesis .
  qed
  have Pq: "0 \<le> 2 * MATH_PI * q" "2 * MATH_PI * q \<le> 7"
  proof -
    show "0 \<le> 2 * MATH_PI * q" using q MATH_PI_range by simp
    have "2 * MATH_PI * q \<le> 7 * 1"
      using q MATH_PI_range by (intro mult_mono) simp_all
    then show "2 * MATH_PI * q \<le> 7" by simp
  qed
  have "\<bar>a / 2 ^ z\<bar> \<le> 8"
    using a' Pq u by linarith
  then have "\<exists>w. fl (a / 2 ^ z) = Finite w \<and> \<bar>w - a / 2 ^ z\<bar> \<le> 8 * (1 / 2 ^ 52)"
    by (intro fl_close_small) simp_all
  then obtain t where t: "fl (a / 2 ^ z) = Finite t" "\<bar>t - a / 2 ^ z\<bar> \<le> 8 * u"
    unfolding u_def by blast
  have s4: "js_div (Finite a) (Finite (2 ^ z)) = Finite t"
    using t(1) by simp
  have "\<bar>MATH_PI + - t\<bar> \<le> 16"
    using t(2) a' Pq u MATH_PI_range by linarith
  then have "\<exists>w. fl (MATH_PI + - t) = Finite w \<and> \<bar>w - (MATH_PI + - t)\<bar> \<le> 16 * (1 / 2 ^ 52)"
    by (intro fl_close_small) simp_all
  then obtain nd where nd: "fl (MATH_PI + - t) = Finite nd" "\<bar>nd - (MATH_PI + - t)\<bar> \<le> 16 * u"
    unfolding u_def by blast
  have s5: "js_sub (Finite MATH_PI) (Finite t) = Finite nd"
    using nd(1) by (simp add: js_sub_def)
  have dp: "\<bar>MATH_PI - pi\<bar> \<le> 2 / 10000000000000000"
    using MATH_PI_close by simp
  have "\<bar>(MATH_PI - pi) * (1 - 2 * q)\<bar> \<le> \<bar>MATH_PI - pi\<bar> * 1"
    unfolding abs_mult using q by (intro mult_left_mono) simp_all
  moreover have "(MATH_PI - 2 * MATH_PI * q) - (pi - 2 * pi * q) = (MATH_PI - pi) * (1 - 2 * q)"
    by (simp add: algebra_simps)
  ultimately have "\<bar>(MATH_PI - 2 * MATH_PI * q) - (pi - 2 * pi * q)\<bar> \<le> 2 / 10000000000000000"
    using dp by simp
  then have "\<bar>nd - (pi - 2 * pi * q)\<bar> \<le> 1 / 100000000000000"
    using nd(2) t(2) a' u by linarith
  moreover have "pi - (2 * pi * y) / 2 powr real z = pi - 2 * pi * q"
    by (simp add: q_def powr_realpow)
  ultimately have "\<bar>nd - (pi - (2 * pi * y) / 2 powr real z)\<bar> \<le> 1 / 10 ^ 14"
    by simp
  then show ?thesis
    by (simp only: s1 s2 s3 s4 s5) simp
qed

lemma degrees_per_radian_close:
  "\<bar>1007958012753983 / 2 ^ 44 - 180 / pi\<bar> \<le> 1 / 10 ^ 14"
proof -
  define K where "K = 180 / pi"
  have lo: "(314159265358979323 / 100000000000000000 :: real) < pi"
    and hi: "pi < (314159265358979324 / 100000000000000000 :: real)"
    using pi_tight by simp_all
  have "180 \<le> 6152087480187885595226199 / 107374182400000000000000 * pi"
    using lo by linarith
  then have a: "K \<le> 6152087480187885595226199 / 107374182400000000000000"
    by (simp add: K_def pos_divide_le_eq)
  have "6152087480187883447742551 / 107374182400000000000000 * pi \<le> 180"
    using hi by linarith
  then have b: "6152087480187883447742551 / 107374182400000000000000 \<le> K"
    by (simp add: K_def pos_le_divide_eq)
  have "\<bar>1007958012753983 / 17592186044416 - K\<bar> \<le> 1 / 100000000000000"
    using a b by linarith
  then show ?thesis
    by (simp add: K_def)
qed

lemma tile2lat_d_close:
  fixes y :: real and z :: nat
  assumes m: "accurate m" and y: "0 \<le> y" "y \<le> 2 ^ z" and z: "z \<le> 1021"
  shows "\<exists>lat. tile2lat_d m (Finite y) (Finite (real z)) = Finite lat
               \<and> \<bar>lat - tile2lat y (real z)\<bar> \<le> 2 / 10 ^ 10"
proof -
  define u :: real where "u = 1 / 2 ^ 52"
  have u: "0 \<le> u" "u \<le> 23 / 100000000000000000"
    by (simp_all add: u_def)
  define e :: real where "e = 1 / 2 ^ 45"
  have e: "0 \<le> e" "e \<le> 285 / 10000000000000000"
    by (simp_all add: e_def)
  define n where "n = pi - (2 * pi * y) / 2 powr real z"
  define s where "s = 0.5 * (exp n - exp (- n))"
  define A where "A = arctan s"
  define c :: real where "c = 1007958012753983 / 2 ^ 44"
  have pi3: "3 < pi" "pi < 315 / 100"
    using pi_tight by simp_all
  have n: "- pi \<le> n" "n \<le> pi"
    unfolding n_def using y by (intro tile_n_range; simp add: powr_realpow)+
  obtain nd where nd: "js_sub (Finite MATH_PI)
        (js_div (js_mul (js_mul (Finite 2) (Finite MATH_PI)) (Finite y))
           (js_pow2 (Finite (real z)))) = Finite nd"
      "\<bar>nd - n\<bar> \<le> 1 / 10 ^ 14"
    unfolding n_def using n_close [OF y z] by blast
  have dn: "\<bar>nd - n\<bar> \<le> 1 / 100000000000000"
    using nd(2) by simp
  have n4: "\<bar>n\<bar> \<le> 4" "\<bar>nd\<bar> \<le> 4" "\<bar>- n\<bar> \<le> 4" "\<bar>- nd\<bar> \<le> 4"
    using n dn pi3 by linarith+
  have ex: "0 < exp v \<and> exp v \<le> 81" if "\<bar>v\<bar> \<le> 4" for v :: real
  proof -
    have "exp v \<le> exp 4" using that by simp
    then have "exp v \<le> 81" using exp_4_le by (rule order_trans)
    then show ?thesis by simp
  qed
  have mexp: "\<exists>w. math_exp m v = Finite w \<and> \<bar>w - exp v\<bar> \<le> 82 * e" if "\<bar>v\<bar> \<le> 4" for v
  proof -
    have "close (math_exp m v) (exp v)"
      using m that by (simp add: accurate_def)
    moreover have "\<bar>exp v\<bar> \<le> 81"
      using ex [OF that] by simp
    ultimately obtain w where "math_exp m v = Finite w" "\<bar>w - exp v\<bar> \<le> (81 + 1) / 2 ^ 45"
      by (rule closeE)
    then show ?thesis by (simp add: e_def)
  qed
  define xn yn xd yd where "xn = exp n" and "yn = exp (- n)" and "xd = exp nd" and "yd = exp (- nd)"
  obtain e1 where e1: "math_exp m nd = Finite e1" "\<bar>e1 - xd\<bar> \<le> 82 * e"
    unfolding xd_def using mexp [OF n4(2)] by blast
  obtain e2 where e2: "math_exp m (- nd) = Finite e2" "\<bar>e2 - yd\<bar> \<le> 82 * e"
    unfolding yd_def using mexp [OF n4(4)] by blast
  have "\<bar>xd - xn\<bar> \<le> 81 * \<bar>nd - n\<bar>"
    unfolding xd_def xn_def using n4 by (intro exp_lipschitz)
  also have "\<dots> \<le> 81 * (1 / 100000000000000)"
    using dn by (intro mult_left_mono) simp_all
  finally have l1: "\<bar>xd - xn\<bar> \<le> 81 / 100000000000000"
    by simp
  have dn': "\<bar>- nd - (- n)\<bar> \<le> 1 / 100000000000000"
    using dn by linarith
  have "\<bar>yd - yn\<bar> \<le> 81 * \<bar>- nd - (- n)\<bar>"
    unfolding yd_def yn_def using n4 by (intro exp_lipschitz)
  also have "\<dots> \<le> 81 * (1 / 100000000000000)"
    by (rule mult_left_mono [OF dn']) simp
  finally have l2: "\<bar>yd - yn\<bar> \<le> 81 / 100000000000000"
    by simp
  have d1: "\<bar>e1 - xn\<bar> \<le> 82 * e + 81 / 100000000000000"
    using e1(2) l1 by linarith
  have d2: "\<bar>e2 - yn\<bar> \<le> 82 * e + 81 / 100000000000000"
    using e2(2) l2 by linarith
  have x1: "0 < xn \<and> xn \<le> 81" and x2: "0 < yn \<and> yn \<le> 81"
    unfolding xn_def yn_def using ex [OF n4(1)] ex [OF n4(3)] by blast+
  have "\<bar>e1 + - e2\<bar> \<le> 256"
    using d1 d2 x1 x2 e by linarith
  then have "\<exists>w. fl (e1 + - e2) = Finite w \<and> \<bar>w - (e1 + - e2)\<bar> \<le> 256 * (1 / 2 ^ 52)"
    by (intro fl_close_small) simp_all
  then obtain dd where dd: "fl (e1 + - e2) = Finite dd" "\<bar>dd - (e1 + - e2)\<bar> \<le> 256 * u"
    unfolding u_def by blast
  have "\<bar>0.5 * dd\<bar> \<le> 128"
    using dd(2) d1 d2 x1 x2 e u by linarith
  then have "\<exists>w. fl (0.5 * dd) = Finite w \<and> \<bar>w - 0.5 * dd\<bar> \<le> 128 * (1 / 2 ^ 52)"
    by (intro fl_close_small) simp_all
  then obtain h where h: "fl (0.5 * dd) = Finite h" "\<bar>h - 0.5 * dd\<bar> \<le> 128 * u"
    unfolding u_def by blast
  have sx: "s = xn / 2 - yn / 2"
    by (simp add: s_def xn_def yn_def)
  have h2: "\<bar>h - dd / 2\<bar> \<le> 128 * u"
    using h(2) by simp
  have dh: "\<bar>h - s\<bar> \<le> 256 * u + 82 * e + 81 / 100000000000000"
    unfolding sx using h2 dd(2) d1 d2 by linarith
  have sb: "\<bar>s\<bar> \<le> 41"
    unfolding sx using x1 x2 by linarith
  have h64: "\<bar>h\<bar> \<le> 64"
    using dh sb u e by linarith
  have "close (math_atan m h) (arctan h)"
    using m h64 by (simp add: accurate_def)
  moreover have ab: "\<bar>arctan v\<bar> \<le> 2" for v :: real
    using arctan_bounded [of v] pi3 by linarith
  ultimately obtain ta where ta: "math_atan m h = Finite ta" "\<bar>ta - arctan h\<bar> \<le> (2 + 1) / 2 ^ 45"
    using closeE [of "math_atan m h" "arctan h" 2] by blast
  define Ad where "Ad = arctan h"
  have ta3: "\<bar>ta - Ad\<bar> \<le> 3 * e"
    using ta(2) by (simp add: e_def Ad_def)
  have "\<bar>Ad - A\<bar> \<le> \<bar>h - s\<bar>"
    unfolding A_def Ad_def by (rule arctan_lipschitz)
  then have "\<bar>Ad - A\<bar> \<le> 256 * u + 82 * e + 81 / 100000000000000"
    using dh by (rule order_trans)
  then have dA: "\<bar>ta - A\<bar> \<le> 256 * u + 85 * e + 81 / 100000000000000"
    using ta3 by linarith
  have A2: "\<bar>A\<bar> \<le> 2"
    unfolding A_def by (rule ab)
  have c: "0 \<le> c" "c \<le> 58"
    by (simp_all add: c_def)
  define K where "K = 180 / pi"
  have dc: "\<bar>c - K\<bar> \<le> 1 / 100000000000000"
    using degrees_per_radian_close by (simp add: c_def K_def)
  have "\<bar>c * ta - c * A\<bar> = c * \<bar>ta - A\<bar>"
    using c(1) by (simp add: abs_mult flip: right_diff_distrib)
  also have "\<dots> \<le> 58 * \<bar>ta - A\<bar>"
    using c(2) by (intro mult_right_mono) simp_all
  also have "\<dots> \<le> 58 * (256 * u + 85 * e + 81 / 100000000000000)"
    using dA by (intro mult_left_mono) simp_all
  finally have p1: "\<bar>c * ta - c * A\<bar> \<le> 14848 * u + 4930 * e + 4698 / 100000000000000"
    by simp
  have "\<bar>c * A - K * A\<bar> = \<bar>c - K\<bar> * \<bar>A\<bar>"
    by (simp add: abs_mult flip: left_diff_distrib)
  also have "\<dots> \<le> 1 / 100000000000000 * 2"
    using dc A2 by (intro mult_mono) simp_all
  finally have p2: "\<bar>c * A - K * A\<bar> \<le> 2 / 100000000000000"
    by simp
  have "\<bar>c * ta\<bar> = c * \<bar>ta\<bar>"
    using c(1) by (simp add: abs_mult)
  also have "\<dots> \<le> 58 * \<bar>ta\<bar>"
    using c(2) by (intro mult_right_mono) simp_all
  also have "\<dots> \<le> 58 * (21 / 10)"
  proof -
    have "\<bar>ta\<bar> \<le> 21 / 10"
      using dA A2 u e by linarith
    then show ?thesis by (intro mult_left_mono) simp_all
  qed
  also have "\<dots> \<le> 128"
    by simp
  finally have "\<bar>c * ta\<bar> \<le> 128" .
  then have "\<exists>w. fl (c * ta) = Finite w \<and> \<bar>w - c * ta\<bar> \<le> 128 * (1 / 2 ^ 52)"
    by (intro fl_close_small) simp_all
  then obtain lat where lat: "fl (c * ta) = Finite lat" "\<bar>lat - c * ta\<bar> \<le> 128 * u"
    unfolding u_def by blast
  have real_lat: "tile2lat y (real z) = K * A"
    by (simp add: tile2lat_def Let_def A_def s_def n_def K_def)
  have "\<bar>lat - K * A\<bar> \<le> 2 / 10000000000"
    using lat(2) p1 p2 u e by linarith
  then have bound: "\<bar>lat - tile2lat y (real z)\<bar> \<le> 2 / 10 ^ 10"
    by (simp add: real_lat)
  have s6: "js_exp m (Finite nd) = Finite e1" "js_exp m (js_neg (Finite nd)) = Finite e2"
    using e1(1) e2(1) by simp_all
  have s8: "js_sub (Finite e1) (Finite e2) = Finite dd"
    using dd(1) by (simp add: js_sub_def)
  have s9: "js_mul (Finite 0.5) (Finite dd) = Finite h"
    using h(1) by simp
  have s10: "js_atan m (Finite h) = Finite ta"
    using ta(1) by simp
  have s11: "js_div (Finite 180) (Finite MATH_PI) = Finite c"
    using fl_degrees_per_radian MATH_PI_range by (simp add: c_def)
  have s12: "js_mul (Finite c) (Finite ta) = Finite lat"
    using lat(1) by simp
  have "tile2lat_d m (Finite y) (Finite (real z)) = Finite lat"
    unfolding tile2lat_d_def Let_def by (simp only: nd(1) s6 s8 s9 s10 s11 s12)
  then show ?thesis
    using bound by blast
qed

lemma mercator_y_d_close:
  assumes m: "accurate m" and d: "\<bar>latd - lat\<bar> \<le> 2 / 10 ^ 10" and r: "\<bar>lat\<bar> \<le> 85.053"
  shows "\<exists>w. py_d (lonLatToWebMercator_d m lon (Finite latd)) = Finite w
             \<and> \<bar>w - py (lonLatToWebMercator lon' lat)\<bar> \<le> 1 / 1000"
proof -
  define u :: real where "u = 1 / 2 ^ 52"
  have u: "0 \<le> u" "u \<le> 23 / 100000000000000000"
    by (simp_all add: u_def)
  define e :: real where "e = 1 / 2 ^ 45"
  have e: "0 \<le> e" "e \<le> 285 / 10000000000000000"
    by (simp_all add: e_def)
  have pi3: "314 / 100 < pi" "pi < 315 / 100" "pi < 31416 / 10000"
    using pi_tight by simp_all
  have d': "\<bar>latd - lat\<bar> \<le> 2 / 10000000000"
    using d by simp
  have r': "\<bar>lat\<bar> \<le> 85053 / 1000"
    using r by simp
  have latd: "\<bar>latd\<bar> \<le> 86"
    using d' r' by linarith
  define C :: real where "C = 3166589969557671 / 2 ^ 45"
  have C: "fl 89.9999 = Finite C"
    by (simp only: fl_clamp_bound C_def)
  have "86 \<le> C"
    by (simp add: C_def)
  then have "min latd C = latd" "max latd (- C) = latd"
    using latd by linarith+
  then have s1: "js_max (js_min (Finite latd) (fl 89.9999)) (js_neg (fl 89.9999)) = Finite latd"
    unfolding C by simp
  have "\<bar>90 + latd\<bar> \<le> 256"
    using latd by linarith
  then have "\<exists>w. fl (90 + latd) = Finite w \<and> \<bar>w - (90 + latd)\<bar> \<le> 256 * (1 / 2 ^ 52)"
    by (intro fl_close_small) simp_all
  then obtain sd where sd: "fl (90 + latd) = Finite sd" "\<bar>sd - (90 + latd)\<bar> \<le> 256 * u"
    unfolding u_def by blast
  have sd_range: "0 \<le> sd" "sd \<le> 177"
    using sd(2) latd u by linarith+
  have mp: "0 \<le> MATH_PI" "MATH_PI \<le> 7 / 2"
    using MATH_PI_range by simp_all
  have "\<bar>sd * MATH_PI\<bar> = sd * MATH_PI"
    using sd_range mp by simp
  also have "\<dots> \<le> 177 * (7 / 2)"
    using sd_range mp by (intro mult_mono) simp_all
  finally have "\<bar>sd * MATH_PI\<bar> \<le> 1024"
    by simp
  then have "\<exists>w. fl (sd * MATH_PI) = Finite w \<and> \<bar>w - sd * MATH_PI\<bar> \<le> 1024 * (1 / 2 ^ 52)"
    by (intro fl_close_small) simp_all
  then obtain p where p: "fl (sd * MATH_PI) = Finite p" "\<bar>p - sd * MATH_PI\<bar> \<le> 1024 * u"
    unfolding u_def by blast
  define W where "W = (90 + lat) * pi"
  define t1 where "t1 = sd * (MATH_PI - pi)"
  define t2 where "t2 = pi * (sd - (90 + lat))"
  have split: "sd * MATH_PI - W = t1 + t2"
    by (simp add: W_def t1_def t2_def algebra_simps)
  have "\<bar>t1\<bar> = sd * \<bar>MATH_PI - pi\<bar>"
    using sd_range by (simp add: t1_def abs_mult)
  also have "\<dots> \<le> 177 * (2 / 10 ^ 16)"
    using sd_range MATH_PI_close by (intro mult_mono) simp_all
  finally have t1: "\<bar>t1\<bar> \<le> 354 / 10000000000000000"
    by simp
  have sdl: "\<bar>sd - (90 + lat)\<bar> \<le> 256 * u + 2 / 10000000000"
    using sd(2) d' by linarith
  have "\<bar>t2\<bar> = pi * \<bar>sd - (90 + lat)\<bar>"
    by (simp add: t2_def abs_mult)
  also have "\<dots> \<le> (315 / 100) * (256 * u + 2 / 10000000000)"
    using pi3 sdl by (intro mult_mono) simp_all
  finally have t2: "\<bar>t2\<bar> \<le> 80640 / 100 * u + 63 / 100000000000"
    by simp
  have pW: "\<bar>p - W\<bar> \<le> 2 / 1000000000"
    using p(2) split t1 t2 u by linarith
  have Wlo: "4947 / 1000 * pi \<le> W"
    unfolding W_def using r' by (intro mult_right_mono) (simp_all add: abs_le_iff)
  have Whi: "W \<le> 175053 / 1000 * pi"
    unfolding W_def using r' by (intro mult_right_mono) (simp_all add: abs_le_iff)
  have W: "15 \<le> W" "W \<le> 552"
    using Wlo Whi pi3 by linarith+
  have "\<bar>p / 360\<bar> \<le> 2"
    using pW W by linarith
  then have "\<exists>w. fl (p / 360) = Finite w \<and> \<bar>w - p / 360\<bar> \<le> 2 * (1 / 2 ^ 52)"
    by (intro fl_close_small) simp_all
  then obtain q where q: "fl (p / 360) = Finite q" "\<bar>q - p / 360\<bar> \<le> 2 * u"
    unfolding u_def by blast
  define ang where "ang = W / 360"
  have dq: "\<bar>q - ang\<bar> \<le> 2 / 1000000000000"
    unfolding ang_def using q(2) p(2) split t1 t2 u by linarith
  have ang: "1 / 25 \<le> ang" "ang \<le> 153 / 100"
    unfolding ang_def using Wlo Whi pi3 by linarith+
  have qr: "1 / 25 \<le> q" "q \<le> 153 / 100"
    unfolding atomize_conj using dq Wlo Whi pi3 unfolding ang_def by linarith
  define tq where "tq = tan q"
  have tq: "1 / 25 \<le> tq" "tq \<le> 25"
    unfolding tq_def using tan_range [OF qr] by simp_all
  have "close (math_tan m q) (tan q)"
    using m qr by (simp add: accurate_def)
  moreover have "\<bar>tan q\<bar> \<le> 25"
    using tq by (simp add: tq_def)
  ultimately obtain T where T: "math_tan m q = Finite T" "\<bar>T - tan q\<bar> \<le> (25 + 1) / 2 ^ 45"
    by (rule closeE)
  have dT: "\<bar>T - tq\<bar> \<le> 26 * e"
    using T(2) by (simp add: e_def tq_def)
  have Tr: "1 / 50 \<le> T" "T \<le> 50"
    using dT tq e by linarith+
  have "close (math_log m T) (ln T)"
    using m Tr by (simp add: accurate_def)
  then obtain L where L: "math_log m T = Finite L" "\<bar>L - ln T\<bar> \<le> (50 + 1) / 2 ^ 45"
    using ln_abs_le [OF Tr] by (rule closeE)
  define lT lq la where "lT = ln T" and "lq = ln (tan q)" and "la = ln (tan ang)"
  have dL: "\<bar>L - lT\<bar> \<le> 51 * e"
    using L(2) by (simp add: e_def lT_def)
  have "\<bar>lT - lq\<bar> \<le> 50 * \<bar>T - tan q\<bar>"
    unfolding lT_def lq_def using Tr tq by (intro ln_lipschitz) (simp_all add: tq_def)
  also have "\<dots> \<le> 50 * (26 * e)"
    using dT by (intro mult_left_mono) (simp_all add: tq_def)
  finally have d1: "\<bar>lT - lq\<bar> \<le> 1300 * e"
    by simp
  have "\<bar>lq - la\<bar> \<le> 50 * \<bar>q - ang\<bar>"
    unfolding lq_def la_def using qr ang by (intro ln_tan_lipschitz)
  also have "\<dots> \<le> 50 * (2 / 1000000000000)"
    using dq by (intro mult_left_mono) simp_all
  finally have d2: "\<bar>lq - la\<bar> \<le> 1 / 10000000000"
    by simp
  have dla: "\<bar>L - la\<bar> \<le> 1351 * e + 1 / 10000000000"
    using dL d1 d2 by linarith
  have "\<bar>lT\<bar> \<le> 50"
    unfolding lT_def using Tr by (rule ln_abs_le)
  then have Lb: "\<bar>L\<bar> \<le> 51"
    using dL e by linarith
  have "\<bar>L * 6378137\<bar> \<le> 2 ^ 29"
    using Lb by simp
  then have "\<exists>w. fl (L * 6378137) = Finite w \<and> \<bar>w - L * 6378137\<bar> \<le> 2 ^ 29 * (1 / 2 ^ 52)"
    by (intro fl_close_small) simp_all
  then obtain Y where Y: "fl (L * 6378137) = Finite Y" "\<bar>Y - L * 6378137\<bar> \<le> 536870912 * u"
    unfolding u_def by auto
  have "\<bar>Y - la * 6378137\<bar> \<le> 1 / 1000"
    using Y(2) dla u e by linarith
  moreover have "py (lonLatToWebMercator lon' lat) = la * 6378137"
  proof -
    have "max (min lat 89.9999) (- 89.9999) = lat"
      using r' by (simp add: abs_le_iff)
    then show ?thesis
      by (simp add: lonLatToWebMercator_def Let_def EARTH_RADIUS_def la_def ang_def W_def)
  qed
  ultimately have bound: "\<bar>Y - py (lonLatToWebMercator lon' lat)\<bar> \<le> 1 / 1000"
    by simp
  have s2: "js_add (Finite 90) (Finite latd) = Finite sd"
    using sd(1) by simp
  have s3: "js_mul (Finite sd) (Finite MATH_PI) = Finite p"
    using p(1) by simp
  have s4: "js_div (Finite p) (Finite 360) = Finite q"
    using q(1) by simp
  have s5: "js_tan m (Finite q) = Finite T"
    using T(1) by simp
  have s6: "js_log m (Finite T) = Finite L"
    using L(1) Tr by simp
  have s7: "js_mul (Finite L) (Finite 6378137) = Finite Y"
    using Y(1) by simp
  have "py_d (lonLatToWebMercator_d m lon (Finite latd)) = Finite Y"
    unfolding lonLatToWebMercator_d_def clampedLat_d_def Let_def
    by (simp only: s1 s2 s3 s4 s5 s6 s7 point_d.simps)
  then show ?thesis
    using bound by blast
qed

lemma tile2lat_abs_le:
  fixes y :: real
  assumes "0 \<le> y" "y \<le> 2 powr z"
  shows "\<bar>tile2lat y z\<bar> \<le> 85.053"
proof -
  define n where "n = pi - (2 * pi * y) / 2 powr z"
  define A where "A = arctan (0.5 * (exp n - exp (- n)))"
  define S where "S = arctan (0.5 * (exp pi - exp (- pi)))"
  define K where "K = 180 / pi"
  have r: "- pi \<le> n" "n \<le> pi"
    unfolding n_def by (rule tile_n_range [OF assms])+
  have "A \<le> S"
    unfolding A_def S_def using half_exp_diff_mono [OF r(2)] by (simp only: arctan_le_iff)
  moreover have "- S \<le> A"
  proof -
    have "arctan (0.5 * (exp (- pi) - exp (- (- pi)))) \<le> A"
      unfolding A_def using half_exp_diff_mono [OF r(1)] by (simp only: arctan_le_iff)
    moreover have "0.5 * (exp (- pi) - exp (- (- pi))) = - (0.5 * (exp pi - exp (- pi)))"
      by (simp add: field_simps)
    ultimately show ?thesis
      by (simp only: arctan_minus S_def)
  qed
  ultimately have "\<bar>A\<bar> \<le> S"
    by linarith
  moreover have "S \<le> pi / 2 - 8636 / 100000"
    unfolding S_def using arctan_sinh_pi_tight by simp
  ultimately have A: "\<bar>A\<bar> \<le> pi / 2 - 8636 / 100000"
    by linarith
  have K: "0 < K"
    by (simp add: K_def)
  have "\<bar>K * A\<bar> = K * \<bar>A\<bar>"
    using K by (simp add: abs_mult)
  also have "\<dots> \<le> K * (pi / 2 - 8636 / 100000)"
    using A K by (intro mult_left_mono) simp_all
  also have "\<dots> = 90 - 155448 / 10000 / pi"
    by (simp add: K_def field_simps)
  also have "\<dots> \<le> 85053 / 1000"
  proof -
    have "pi < 31416 / 10000"
      using pi_bounds(2) by simp
    then have "4947 / 1000 * pi \<le> 155448 / 10000"
      by linarith
    then have "4947 / 1000 \<le> 155448 / 10000 / pi"
      by (simp add: pos_le_divide_eq)
    then show ?thesis by linarith
  qed
  finally have "\<bar>K * A\<bar> \<le> 85053 / 1000" .
  moreover have "tile2lat y z = K * A"
    by (simp add: tile2lat_def Let_def K_def A_def n_def)
  ultimately show ?thesis
    by simp
qed

lemma two_pow_le_30:
  fixes z :: nat
  assumes "z \<le> 30"
  shows "(2 :: int) ^ z \<le> 1073741824"
proof -
  have "(2 :: int) ^ z \<le> 2 ^ 30"
    using assms by (intro power_increasing) simp_all
  then show ?thesis by simp
qed

lemma fl_dyadic:
  fixes z :: nat
  assumes "\<bar>k\<bar> < 2 ^ 53" "\<bar>real_of_int k / 2 ^ z\<bar> < 2 ^ 1024" "z \<le> 1074"
  shows "fl (real_of_int k / 2 ^ z) = Finite (real_of_int k / 2 ^ z)"
proof (rule fl_exact [where m = k and k = "- int z"])
  show "real_of_int k / 2 ^ z = of_int k * 2 powr of_int (- int z)"
    by (simp add: powr_minus powr_realpow divide_inverse)
qed (use assms in simp_all)

lemma tile2lon_d_exact:
  fixes x z :: nat
  assumes z: "z \<le> 30" and x: "x \<le> 2 ^ z"
  shows "tile2lon_d (Finite (real x)) (Finite (real z)) = Finite (tile2lon (real x) (real z))"
proof -
  have p: "(2 :: int) ^ z \<le> 1073741824"
    using z by (rule two_pow_le_30)
  have xi: "int x \<le> 2 ^ z"
    using x by (metis of_nat_le_iff of_nat_numeral of_nat_power)
  have z': "z \<le> 1074" "z \<le> 1021"
    using z by simp_all
  have small: "\<bar>real_of_int k / 2 ^ z\<bar> < 2 ^ 1024" if "\<bar>k\<bar> < 2 ^ 53" for k
  proof -
    have "\<bar>real_of_int k / 2 ^ z\<bar> \<le> \<bar>real_of_int k\<bar>"
      by (simp add: abs_divide divide_le_eq_1 field_simps mult_le_cancel_left1 )
    also have "\<dots> < 2 ^ 53"
      using that by (metis of_int_abs of_int_less_numeral_power_cancel_iff)
    also have "(2 :: real) ^ 53 \<le> 2 ^ 1024"
      by simp
    finally show ?thesis .
  qed
  have s1: "js_pow2 (Finite (real z)) = Finite (2 ^ z)"
    using fl_pow2 [of "int z"] z' by (simp add: powr_realpow)
  have xb: "0 \<le> int x" "int x \<le> 1073741824" "0 \<le> (2 :: int) ^ z"
  proof -
    show "int x \<le> 1073741824" using xi p by (rule order_trans)
  qed simp_all
  have k1: "\<bar>int x\<bar> < 2 ^ 53"
  proof -
    have "\<bar>int x\<bar> < 9007199254740992"
      using xb by linarith
    then show ?thesis by simp
  qed
  have "fl (real_of_int (int x) / 2 ^ z) = Finite (real_of_int (int x) / 2 ^ z)"
    using k1 small [OF k1] z'(1) by (rule fl_dyadic)
  then have s2: "js_div (Finite (real x)) (Finite (2 ^ z)) = Finite (real x / 2 ^ z)"
    by simp
  have k2: "\<bar>360 * int x\<bar> < 2 ^ 53"
  proof -
    have "\<bar>360 * int x\<bar> < 9007199254740992"
      using xb by linarith
    then show ?thesis by simp
  qed
  have "fl (real_of_int (360 * int x) / 2 ^ z) = Finite (real_of_int (360 * int x) / 2 ^ z)"
    using k2 small [OF k2] z'(1) by (rule fl_dyadic)
  then have s3: "js_mul (Finite (real x / 2 ^ z)) (Finite 360) = Finite (real x / 2 ^ z * 360)"
    by (simp add: mult.commute)
  have k3: "\<bar>360 * int x - 180 * 2 ^ z\<bar> < 2 ^ 53"
  proof -
    have "\<bar>360 * int x - 180 * 2 ^ z\<bar> < 9007199254740992"
      using xb p by linarith
    then show ?thesis by simp
  qed
  have "fl (real_of_int (360 * int x - 180 * 2 ^ z) / 2 ^ z)
      = Finite (real_of_int (360 * int x - 180 * 2 ^ z) / 2 ^ z)"
    using k3 small [OF k3] z'(1) by (rule fl_dyadic)
  moreover have "real_of_int (360 * int x - 180 * 2 ^ z) / 2 ^ z = real x / 2 ^ z * 360 + - 180"
    by (simp add: field_simps)
  ultimately have s4: "js_sub (Finite (real x / 2 ^ z * 360)) (Finite 180)
      = Finite (real x / 2 ^ z * 360 - 180)"
    by (simp add: js_sub_def)
  show ?thesis
    unfolding tile2lon_d_def tile2lon_def by (simp only: s1 s2 s3 s4 powr_realpow [of 2 z, simplified])
qed

lemma mercator_x_d_close:
  assumes lon: "\<bar>lon\<bar> \<le> 180"
  shows "\<exists>w. px_d (lonLatToWebMercator_d m (Finite lon) lat) = Finite w
             \<and> \<bar>w - px (lonLatToWebMercator lon lat')\<bar> \<le> 1 / 10 ^ 6"
proof -
  define u :: real where "u = 1 / 2 ^ 52"
  have u: "0 \<le> u" "u \<le> 23 / 100000000000000000"
    by (simp_all add: u_def)
  define R :: real where "R = pi * 6378137"
  have "\<bar>MATH_PI * 6378137\<bar> \<le> 2 ^ 25"
    by (simp add: MATH_PI_def)
  then have "\<exists>w. fl (MATH_PI * 6378137) = Finite w
      \<and> \<bar>w - MATH_PI * 6378137\<bar> \<le> 2 ^ 25 * (1 / 2 ^ 52)"
    by (intro fl_close_small) simp_all
  then obtain os where os: "fl (MATH_PI * 6378137) = Finite os"
      "\<bar>os - MATH_PI * 6378137\<bar> \<le> 33554432 * u"
    unfolding u_def by auto
  have s1: "ORIGIN_SHIFT_d = Finite os"
    using os(1) by (simp add: ORIGIN_SHIFT_d_def)
  have dp: "\<bar>MATH_PI - pi\<bar> \<le> 2 / 10000000000000000"
    using MATH_PI_close by simp
  have dos: "\<bar>os - R\<bar> \<le> 1 / 100000000"
    unfolding R_def using os(2) dp u by linarith
  have Rb: "0 \<le> R" "R \<le> 20037509"
    unfolding R_def using pi_tight by simp_all
  have osb: "\<bar>os\<bar> \<le> 20037510"
    using dos Rb by linarith
  have "\<bar>lon * os\<bar> = \<bar>lon\<bar> * \<bar>os\<bar>"
    by (rule abs_mult)
  also have "\<dots> \<le> 180 * 20037510"
    using lon osb by (intro mult_mono) simp_all
  finally have "\<bar>lon * os\<bar> \<le> 2 ^ 32"
    by simp
  then have "\<exists>w. fl (lon * os) = Finite w \<and> \<bar>w - lon * os\<bar> \<le> 2 ^ 32 * (1 / 2 ^ 52)"
    by (intro fl_close_small) simp_all
  then obtain v where v: "fl (lon * os) = Finite v" "\<bar>v - lon * os\<bar> \<le> 4294967296 * u"
    unfolding u_def by auto
  define t where "t = lon * (os - R)"
  have "\<bar>t\<bar> = \<bar>lon\<bar> * \<bar>os - R\<bar>"
    by (simp add: t_def abs_mult)
  also have "\<dots> \<le> 180 * (1 / 100000000)"
    using lon dos by (intro mult_mono) simp_all
  finally have t: "\<bar>t\<bar> \<le> 180 / 100000000"
    by simp
  define X where "X = lon * R"
  have split: "lon * os = X + t"
    by (simp add: X_def t_def algebra_simps)
  have "\<bar>X\<bar> = \<bar>lon\<bar> * R"
    using Rb by (simp add: X_def abs_mult)
  also have "\<dots> \<le> 180 * 20037509"
    using lon Rb by (intro mult_mono) simp_all
  finally have Xb: "\<bar>X\<bar> \<le> 3606751620"
    by simp
  have "\<bar>v / 180\<bar> \<le> 33554432"
    using v(2) split t Xb u by linarith
  then have "\<exists>w. fl (v / 180) = Finite w \<and> \<bar>w - v / 180\<bar> \<le> 2 ^ 25 * (1 / 2 ^ 52)"
    by (intro fl_close_small) simp_all
  then obtain w where w: "fl (v / 180) = Finite w" "\<bar>w - v / 180\<bar> \<le> 33554432 * u"
    unfolding u_def by auto
  have wb: "\<bar>w - X / 180\<bar> \<le> 1 / 1000000"
    using w(2) v(2) split t u by linarith
  have real_px: "px (lonLatToWebMercator lon lat') = X / 180"
    by (simp add: lonLatToWebMercator_def Let_def ORIGIN_SHIFT_def EARTH_RADIUS_def X_def R_def)
  have bound: "\<bar>w - px (lonLatToWebMercator lon lat')\<bar> \<le> 1 / 10 ^ 6"
    unfolding real_px using wb by simp
  have s2: "js_mul (Finite lon) (Finite os) = Finite v"
    using v(1) by simp
  have s3: "js_div (Finite v) (Finite 180) = Finite w"
    using w(1) by simp
  have "px_d (lonLatToWebMercator_d m (Finite lon) lat) = Finite w"
    unfolding lonLatToWebMercator_d_def Let_def by (simp only: s1 s2 s3 point_d.simps)
  then show ?thesis
    using bound by blast
qed

lemma real_le_two_power:
  fixes x z :: nat
  assumes "x \<le> 2 ^ z"
  shows "real x \<le> 2 ^ z"
  using assms by (metis of_nat_le_iff of_nat_numeral of_nat_power)

lemma tile2lon_range:
  fixes x z :: nat
  assumes "x \<le> 2 ^ z"
  shows "\<bar>tile2lon (real x) (real z)\<bar> \<le> 180"
proof -
  define q where "q = real x / 2 ^ z"
  have "real x \<le> 2 ^ z"
    using assms by (rule real_le_two_power)
  then have "0 \<le> q" "q \<le> 1"
    by (simp_all add: q_def)
  moreover have "tile2lon (real x) (real z) = q * 360 - 180"
    by (simp add: tile2lon_def q_def powr_realpow)
  ultimately show ?thesis
    by simp
qed

lemma fl_succ:
  fixes x z :: nat
  assumes "z \<le> 30" "x < 2 ^ z"
  shows "js_add (Finite (real x)) (Finite 1) = Finite (real (x + 1))"
proof -
  have "int x < 2 ^ z"
    using assms(2) by (metis of_nat_less_iff of_nat_numeral of_nat_power)
  then have "int x < 1073741824"
    using two_pow_le_30 [OF assms(1)] by (rule less_le_trans)
  then have "\<bar>int x + 1\<bar> < 9007199254740992"
    by linarith
  then have "\<bar>int x + 1\<bar> < 2 ^ 53"
    by simp
  then have "fl (of_int (int x + 1)) = Finite (of_int (int x + 1))"
    by (rule fl_int)
  moreover have "real_of_int (int x + 1) = real x + 1"
    by simp
  ultimately have "fl (real x + 1) = Finite (real x + 1)"
    by (simp only:)
  moreover have "real (x + 1) = real x + 1"
    by simp
  ultimately show ?thesis
    by (simp only: js_add.simps)
qed

lemma projectedBBox_d_close:
  fixes zoom column row :: nat
  assumes m: "accurate m" and z: "zoom \<le> 30" and c: "column < 2 ^ zoom" and r: "row < 2 ^ zoom"
  shows "\<exists>a b c d.
           projectedBBox_d m (Finite (real zoom)) (Finite (real column)) (Finite (real row))
             = \<lparr>minX_d = Finite a, minY_d = Finite b, maxX_d = Finite c, maxY_d = Finite d\<rparr>
           \<and> \<bar>a - minX (projectedBBox (real zoom) (real column) (real row))\<bar> \<le> 1 / 10 ^ 6
           \<and> \<bar>b - minY (projectedBBox (real zoom) (real column) (real row))\<bar> \<le> 1 / 1000
           \<and> \<bar>c - maxX (projectedBBox (real zoom) (real column) (real row))\<bar> \<le> 1 / 10 ^ 6
           \<and> \<bar>d - maxY (projectedBBox (real zoom) (real column) (real row))\<bar> \<le> 1 / 1000"
proof -
  have z': "zoom \<le> 1021"
    using z by simp
  have c1: "column \<le> 2 ^ zoom" "column + 1 \<le> 2 ^ zoom"
    using c by simp_all
  have r0: "(0 :: real) \<le> real row" "real row \<le> 2 ^ zoom"
  proof -
    have "row \<le> 2 ^ zoom" using r by simp
    then show "real row \<le> 2 ^ zoom" by (rule real_le_two_power)
  qed simp
  have r1: "(0 :: real) \<le> real (row + 1)" "real (row + 1) \<le> 2 ^ zoom"
  proof -
    have "row + 1 \<le> 2 ^ zoom" using r by simp
    then show "real (row + 1) \<le> 2 ^ zoom" by (rule real_le_two_power)
  qed simp
  have sr: "js_add (Finite (real row)) (Finite 1) = Finite (real (row + 1))"
    using z r by (rule fl_succ)
  have sc: "js_add (Finite (real column)) (Finite 1) = Finite (real (column + 1))"
    using z c by (rule fl_succ)
  obtain north where north:
      "tile2lat_d m (Finite (real row)) (Finite (real zoom)) = Finite north"
      "\<bar>north - tile2lat (real row) (real zoom)\<bar> \<le> 2 / 10 ^ 10"
    using tile2lat_d_close [OF m r0 z'] by blast
  obtain south where south:
      "tile2lat_d m (Finite (real (row + 1))) (Finite (real zoom)) = Finite south"
      "\<bar>south - tile2lat (real (row + 1)) (real zoom)\<bar> \<le> 2 / 10 ^ 10"
    using tile2lat_d_close [OF m r1 z'] by blast
  have west: "tile2lon_d (Finite (real column)) (Finite (real zoom))
      = Finite (tile2lon (real column) (real zoom))"
    using z c1(1) by (rule tile2lon_d_exact)
  have east: "tile2lon_d (Finite (real (column + 1))) (Finite (real zoom))
      = Finite (tile2lon (real (column + 1)) (real zoom))"
    using z c1(2) by (rule tile2lon_d_exact)
  have rn: "\<bar>tile2lat (real row) (real zoom)\<bar> \<le> 85.053"
    using r0 by (intro tile2lat_abs_le) (simp_all add: powr_realpow)
  have rs: "\<bar>tile2lat (real (row + 1)) (real zoom)\<bar> \<le> 85.053"
    using r1 by (intro tile2lat_abs_le) (simp_all add: powr_realpow)
  obtain a where a:
      "px_d (lonLatToWebMercator_d m (Finite (tile2lon (real column) (real zoom))) (Finite south))
         = Finite a"
      "\<bar>a - px (lonLatToWebMercator (tile2lon (real column) (real zoom))
                   (tile2lat (real (row + 1)) (real zoom)))\<bar> \<le> 1 / 10 ^ 6"
    using mercator_x_d_close [OF tile2lon_range [OF c1(1)]] by blast
  obtain b where b:
      "py_d (lonLatToWebMercator_d m (Finite (tile2lon (real column) (real zoom))) (Finite south))
         = Finite b"
      "\<bar>b - py (lonLatToWebMercator (tile2lon (real column) (real zoom))
                   (tile2lat (real (row + 1)) (real zoom)))\<bar> \<le> 1 / 1000"
    using mercator_y_d_close [OF m south(2) rs] by blast
  obtain c' where c':
      "px_d (lonLatToWebMercator_d m (Finite (tile2lon (real (column + 1)) (real zoom))) (Finite north))
         = Finite c'"
      "\<bar>c' - px (lonLatToWebMercator (tile2lon (real (column + 1)) (real zoom))
                   (tile2lat (real row) (real zoom)))\<bar> \<le> 1 / 10 ^ 6"
    using mercator_x_d_close [OF tile2lon_range [OF c1(2)]] by blast
  obtain d where d:
      "py_d (lonLatToWebMercator_d m (Finite (tile2lon (real (column + 1)) (real zoom))) (Finite north))
         = Finite d"
      "\<bar>d - py (lonLatToWebMercator (tile2lon (real (column + 1)) (real zoom))
                   (tile2lat (real row) (real zoom)))\<bar> \<le> 1 / 1000"
    using mercator_y_d_close [OF m north(2) rn] by blast
  have box: "projectedBBox_d m (Finite (real zoom)) (Finite (real column)) (Finite (real row))
      = \<lparr>minX_d = Finite a, minY_d = Finite b, maxX_d = Finite c', maxY_d = Finite d\<rparr>"
    unfolding projectedBBox_d_def Let_def
    by (simp only: sr sc north(1) south(1) west east a(1) b(1) c'(1) d(1))
  have f: "real (row + 1) = real row + 1" "real (column + 1) = real column + 1"
    by simp_all
  show ?thesis
    using box a(2) b(2) c'(2) d(2) unfolding projectedBBox_fields f by blast
qed

lemma fl_underflow:
  assumes "0 < x" "x < 2 powr (- 1075)"
  shows "fl x = Finite 0"
proof -
  have "log 2 x < - 1075"
    using assms by (simp add: log_less_iff)
  then have "\<lfloor>log 2 \<bar>x\<bar>\<rfloor> \<le> - 1022"
    using assms(1) by (simp add: floor_le_iff)
  then have ex: "exponent x = - 1022"
    by (simp add: exponent_def)
  have ul: "ulp x = 2 powr (- 1074)"
    by (simp add: ulp_def ex)
  define t where "t = x / 2 powr (- 1074)"
  have "t < 2 powr (- 1075) / 2 powr (- 1074)"
    unfolding t_def using assms(2) by (intro divide_strict_right_mono) simp_all
  also have "(2 :: real) powr (- 1075) / 2 powr (- 1074) = 2 powr (- 1)"
    by (simp flip: powr_diff)
  also have "(2 :: real) powr (- 1) = 1 / 2"
    by (simp add: powr_minus_divide)
  finally have lt: "t < 1 / 2" .
  have ge: "0 \<le> t"
    unfolding t_def using assms(1) by simp
  have "\<lfloor>t\<rfloor> = 0"
    using lt ge by linarith
  then have "round_half_even t = 0"
    using lt by (simp add: round_half_even_def)
  then show ?thesis
    using assms(1) by (simp add: fl_def ul t_def)
qed

lemma real_box_gap:
  fixes zoom :: nat
  assumes "zoom \<le> 30"
  shows "3 / 100 \<le> 2 * (pi * 6378137) / 2 ^ zoom"
proof -
  have "(2 :: real) ^ zoom \<le> 2 ^ 30"
    using assms by (intro power_increasing) simp_all
  then have "3 / 100 * (2 :: real) ^ zoom \<le> 3 / 100 * 1073741824"
    by simp
  also have "\<dots> \<le> 2 * (pi * 6378137)"
    using pi_tight(1) by simp
  finally show ?thesis
    by (simp add: pos_le_divide_eq)
qed

lemma real_box_width:
  "maxX (projectedBBox zoom column row) - minX (projectedBBox zoom column row)
     = 2 * (pi * 6378137) / 2 powr zoom"
  by (simp add: projectedBBox_fields mercator_x tile2lon_def ORIGIN_SHIFT_def EARTH_RADIUS_def
      field_simps)

lemma real_box_height:
  assumes "0 \<le> row" "row + 1 \<le> 2 powr zoom"
  shows "maxY (projectedBBox zoom column row) - minY (projectedBBox zoom column row)
     = 2 * (pi * 6378137) / 2 powr zoom"
proof -
  have a: "\<bar>tile2lat row zoom\<bar> \<le> 85.053"
    using assms by (intro tile2lat_abs_le) simp_all
  have b: "\<bar>tile2lat (row + 1) zoom\<bar> \<le> 85.053"
    using assms by (intro tile2lat_abs_le) simp_all
  have n: "py (lonLatToWebMercator lon (tile2lat row zoom))
      = (pi - (2 * pi * row) / 2 powr zoom) * EARTH_RADIUS" for lon
    using a by (intro mercator_y_unclamped) (simp_all add: abs_le_iff)
  have s: "py (lonLatToWebMercator lon (tile2lat (row + 1) zoom))
      = (pi - (2 * pi * (row + 1)) / 2 powr zoom) * EARTH_RADIUS" for lon
    using b by (intro mercator_y_unclamped) (simp_all add: abs_le_iff)
  show ?thesis
    unfolding projectedBBox_fields n s by (simp add: EARTH_RADIUS_def field_simps)
qed

text \<open>
  Claim C1, as the code has it. Over the real numbers the expressions of the handler are
  the specified algorithm, for all zoom, column and row: longitudes
  \<open>col / 2^zoom * 360 - 180\<close> at column and column + 1, latitudes
  \<open>(180/pi) * atan (0.5 * (e^n - e^(-n)))\<close> with \<open>n = pi - 2 * pi * row / 2^zoom\<close> at row and
  row + 1, each corner projected with \<open>x = lon * R * pi / 180\<close> and
  \<open>y = R * ln (tan (pi/4 + lat * pi / 360))\<close> on the latitude clamped to
  \<open>[-89.9999, 89.9999]\<close>, and the box assembled as west.x, south.y, east.x, north.y. In
  the doubles the code computes with, the box is the specified one up to rounding: for
  every integer zoom from 0 to 30 and integers column and row with
  \<open>0 \<le> column, row < 2^zoom\<close>, with accurate \<^verbatim>\<open>Math\<close> functions, the four coordinates
  are finite, minX and maxX within \<open>10^-6\<close> and minY and maxY within \<open>10^-3\<close> of the
  specified values.
\<close>

theorem projectedBBox_d_near_spec:
  fixes zoom column row :: nat
  assumes "accurate m" and "zoom \<le> 30" and "column < 2 ^ zoom" and "row < 2 ^ zoom"
  shows "(\<forall>z x y. projectedBBox z x y = spec_bbox z x y)
         \<and> (\<exists>a b c d.
              projectedBBox_d m (Finite (real zoom)) (Finite (real column)) (Finite (real row))
                = \<lparr>minX_d = Finite a, minY_d = Finite b, maxX_d = Finite c, maxY_d = Finite d\<rparr>
              \<and> \<bar>a - minX (spec_bbox (real zoom) (real column) (real row))\<bar> \<le> 1 / 10 ^ 6
              \<and> \<bar>b - minY (spec_bbox (real zoom) (real column) (real row))\<bar> \<le> 1 / 1000
              \<and> \<bar>c - maxX (spec_bbox (real zoom) (real column) (real row))\<bar> \<le> 1 / 10 ^ 6
              \<and> \<bar>d - maxY (spec_bbox (real zoom) (real column) (real row))\<bar> \<le> 1 / 1000)"
  using projectedBBox_d_close [OF assms] by (simp only: projectedBBox_spec) simp

theorem projectedBBox_d_near_spec_witness:
  "(\<forall>z x y. projectedBBox z x y = spec_bbox z x y)
   \<and> (\<exists>a b c d.
        projectedBBox_d ideal_math (Finite 10) (Finite 100) (Finite 200)
          = \<lparr>minX_d = Finite a, minY_d = Finite b, maxX_d = Finite c, maxY_d = Finite d\<rparr>
        \<and> \<bar>a - minX (spec_bbox 10 100 200)\<bar> \<le> 1 / 10 ^ 6
        \<and> \<bar>b - minY (spec_bbox 10 100 200)\<bar> \<le> 1 / 1000
        \<and> \<bar>c - maxX (spec_bbox 10 100 200)\<bar> \<le> 1 / 10 ^ 6
        \<and> \<bar>d - maxY (spec_bbox 10 100 200)\<bar> \<le> 1 / 1000)"
  using projectedBBox_d_near_spec [where m = ideal_math and zoom = 10 and column = 100 and row = 200]
    accurate_ideal_math
  by simp

text \<open>
  The claim as the specification states it, that the box is exactly the specified one
  for every finite zoom, column and row the endpoint accepts, fails on zoom = -1100,
  column = 0, row = 0: \<^verbatim>\<open>2 ** -1100\<close> underflows to 0, \<^verbatim>\<open>0 / 0\<close> is \<^verbatim>\<open>NaN\<close>, and the
  minX of the code is \<^verbatim>\<open>NaN\<close> where the specified algorithm gives \<open>- R * pi\<close>.
\<close>

theorem projectedBBox_d_not_a_number:
  "minX_d (projectedBBox_d ideal_math (Finite (- 1100)) (Finite 0) (Finite 0)) = NaN
   \<and> minX (spec_bbox (- 1100) 0 0) = - (6378137 * pi)"
proof -
  have "fl (2 powr (- 1100)) = Finite 0"
    by (rule fl_underflow) (simp_all add: powr_less_cancel_iff)
  then have "tile2lon_d (Finite 0) (Finite (- 1100)) = NaN"
    by (simp add: tile2lon_d_def js_sub_def)
  then have "minX_d (projectedBBox_d ideal_math (Finite (- 1100)) (Finite 0) (Finite 0)) = NaN"
    by (simp add: projectedBBox_d_def Let_def lonLatToWebMercator_d_def)
  moreover have "minX (spec_bbox (- 1100) 0 0) = - (6378137 * pi)"
    by (simp add: spec_bbox_def spec_x_def spec_lon_def)
  ultimately show ?thesis
    by simp
qed




text \<open>
  Claim C7, as the code has it. For every integer zoom from 0 to 30 and all integers
  column and row with \<open>0 \<le> column, row < 2^zoom\<close>, with accurate \<^verbatim>\<open>Math\<close> functions,
  the box computed in doubles has four finite coordinates with \<open>minX < maxX\<close> and
  \<open>minY < maxY\<close>, and the tile shares its east edge with its right neighbour: maxX of
  tile (z, x, y) and minX of tile (z, x + 1, y) are the same double.
\<close>

theorem tile_bbox_nondegenerate_d:
  fixes zoom column row :: nat
  assumes "accurate m" and "zoom \<le> 30" and "column < 2 ^ zoom" and "row < 2 ^ zoom"
  shows "(\<exists>a b c d.
            projectedBBox_d m (Finite (real zoom)) (Finite (real column)) (Finite (real row))
              = \<lparr>minX_d = Finite a, minY_d = Finite b, maxX_d = Finite c, maxY_d = Finite d\<rparr>
            \<and> a < c \<and> b < d)
         \<and> maxX_d (projectedBBox_d m (Finite (real zoom)) (Finite (real column)) (Finite (real row)))
           = minX_d (projectedBBox_d m (Finite (real zoom)) (Finite (real (column + 1)))
               (Finite (real row)))"
proof -
  obtain a b c d where box:
      "projectedBBox_d m (Finite (real zoom)) (Finite (real column)) (Finite (real row))
         = \<lparr>minX_d = Finite a, minY_d = Finite b, maxX_d = Finite c, maxY_d = Finite d\<rparr>"
    and a: "\<bar>a - minX (projectedBBox (real zoom) (real column) (real row))\<bar> \<le> 1 / 10 ^ 6"
    and b: "\<bar>b - minY (projectedBBox (real zoom) (real column) (real row))\<bar> \<le> 1 / 1000"
    and c: "\<bar>c - maxX (projectedBBox (real zoom) (real column) (real row))\<bar> \<le> 1 / 10 ^ 6"
    and d: "\<bar>d - maxY (projectedBBox (real zoom) (real column) (real row))\<bar> \<le> 1 / 1000"
    using projectedBBox_d_close [OF assms] by blast
  define g where "g = 2 * (pi * 6378137) / 2 powr real zoom"
  have g: "3 / 100 \<le> g"
    unfolding g_def using real_box_gap [OF assms(2)] by (simp add: powr_realpow)
  have w: "maxX (projectedBBox (real zoom) (real column) (real row))
      - minX (projectedBBox (real zoom) (real column) (real row)) = g"
    unfolding g_def by (rule real_box_width)
  have "real (row + 1) \<le> 2 ^ zoom"
    using assms(4) by (intro real_le_two_power) simp
  then have h: "maxY (projectedBBox (real zoom) (real column) (real row))
      - minY (projectedBBox (real zoom) (real column) (real row)) = g"
    unfolding g_def by (intro real_box_height) (simp_all add: powr_realpow)
  have a': "\<bar>a - minX (projectedBBox (real zoom) (real column) (real row))\<bar> \<le> 1 / 1000000"
    and c': "\<bar>c - maxX (projectedBBox (real zoom) (real column) (real row))\<bar> \<le> 1 / 1000000"
    using a c by simp_all
  have "a < c"
    using a' c' w g by linarith
  moreover have "b < d"
    using b d h g by linarith
  moreover have "maxX_d (projectedBBox_d m (Finite (real zoom)) (Finite (real column))
        (Finite (real row)))
      = minX_d (projectedBBox_d m (Finite (real zoom)) (Finite (real (column + 1)))
          (Finite (real row)))"
    unfolding projectedBBox_d_def Let_def lonLatToWebMercator_d_def
    by (simp only: fl_succ [OF assms(2,3)] bbox_d.simps point_d.simps)
  ultimately show ?thesis
    using box by blast
qed

theorem tile_bbox_nondegenerate_d_witness:
  "(\<exists>a b c d.
      projectedBBox_d ideal_math (Finite 10) (Finite 100) (Finite 200)
        = \<lparr>minX_d = Finite a, minY_d = Finite b, maxX_d = Finite c, maxY_d = Finite d\<rparr>
      \<and> a < c \<and> b < d)
   \<and> maxX_d (projectedBBox_d ideal_math (Finite 10) (Finite 100) (Finite 200))
     = minX_d (projectedBBox_d ideal_math (Finite 10) (Finite 101) (Finite 200))"
  using tile_bbox_nondegenerate_d [where m = ideal_math and zoom = 10 and column = 100 and row = 200]
    accurate_ideal_math
  by simp

text \<open>
  The claim as the specification states it, for every zoom, fails on the tile zoom = 55,
  column = 0, row = 0: \<^verbatim>\<open>1 / 2 ** 55 * 360 - 180\<close> rounds to -180, the west and the east
  edge are the same longitude, and minX = maxX.
\<close>

theorem tile_55_degenerate:
  "minX_d (projectedBBox_d ideal_math (Finite 55) (Finite 0) (Finite 0))
     = maxX_d (projectedBBox_d ideal_math (Finite 55) (Finite 0) (Finite 0))
   \<and> \<not> js_lt (minX_d (projectedBBox_d ideal_math (Finite 55) (Finite 0) (Finite 0)))
            (maxX_d (projectedBBox_d ideal_math (Finite 55) (Finite 0) (Finite 0)))"
proof -
  have "minX_d (projectedBBox_d ideal_math (Finite 55) (Finite 0) (Finite 0))
     = maxX_d (projectedBBox_d ideal_math (Finite 55) (Finite 0) (Finite 0))"
    by (simp only: projectedBBox_d_def Let_def lonLatToWebMercator_d_def
        tile2lon_d_west_55 tile2lon_d_east_55 bbox_d.simps point_d.simps)
  then show ?thesis by simp
qed



text \<open>
  Claim C10, as the code has it. For every integer zoom from 0 to 1021 and every row
  with \<open>0 \<le> row \<le> 2^zoom\<close>, with accurate \<^verbatim>\<open>Math\<close> functions, the latitude that
  \<^verbatim>\<open>tile2lat\<close> computes in doubles is finite and strictly inside (-85.06, 85.06), and
  the clamp of \<^verbatim>\<open>lonLatToWebMercator\<close> returns it unchanged.
\<close>

theorem tile2lat_d_never_clamped:
  fixes zoom :: nat and row :: real
  assumes "accurate m" and "zoom \<le> 1021" and "0 \<le> row" and "row \<le> 2 ^ zoom"
  shows "\<exists>lat. tile2lat_d m (Finite row) (Finite (real zoom)) = Finite lat
               \<and> - 85.06 < lat \<and> lat < 85.06
               \<and> clampedLat_d (Finite lat) = Finite lat"
proof -
  obtain lat where lat: "tile2lat_d m (Finite row) (Finite (real zoom)) = Finite lat"
      "\<bar>lat - tile2lat row (real zoom)\<bar> \<le> 2 / 10 ^ 10"
    using tile2lat_d_close [OF assms(1,3,4,2)] by blast
  have "\<bar>tile2lat row (real zoom)\<bar> \<le> 85.053"
    using assms(3,4) by (intro tile2lat_abs_le) (simp_all add: powr_realpow)
  then have r: "\<bar>tile2lat row (real zoom)\<bar> \<le> 85053 / 1000"
    by simp
  have d: "\<bar>lat - tile2lat row (real zoom)\<bar> \<le> 2 / 10000000000"
    using lat(2) by simp
  have b: "- (8506 / 100) < lat" "lat < 8506 / 100"
    using r d by linarith+
  define C :: real where "C = 3166589969557671 / 2 ^ 45"
  have C: "fl 89.9999 = Finite C"
    by (simp only: fl_clamp_bound C_def)
  have "86 \<le> C"
    by (simp add: C_def)
  then have "min lat C = lat" "max lat (- C) = lat"
    using b by linarith+
  then have "clampedLat_d (Finite lat) = Finite lat"
    unfolding clampedLat_d_def C by simp
  then show ?thesis
    using lat(1) b by simp
qed

theorem tile2lat_d_never_clamped_witness:
  "\<exists>lat. tile2lat_d ideal_math (Finite 200) (Finite 10) = Finite lat
         \<and> - 85.06 < lat \<and> lat < 85.06
         \<and> clampedLat_d (Finite lat) = Finite lat"
  using tile2lat_d_never_clamped [where m = ideal_math and zoom = 10 and row = 200]
    accurate_ideal_math
  by simp
text \<open>
  The claim as the specification states it, for every zoom, fails on zoom = 1022,
  row = \<open>2^1022\<close>, a row of the range: \<^verbatim>\<open>2 * Math.PI * y\<close> overflows to \<^verbatim>\<open>Infinity\<close>, the
  latitude is -90, and the clamp changes it to -89.9999.
\<close>

theorem tile2lat_clamped_1022:
  "tile2lat_d ideal_math (Finite (2 ^ 1022)) (Finite 1022) = Finite (- 90)
   \<and> clampedLat_d (tile2lat_d ideal_math (Finite (2 ^ 1022)) (Finite 1022))
       = Finite (- (3166589969557671 / 2 ^ 45))
   \<and> clampedLat_d (tile2lat_d ideal_math (Finite (2 ^ 1022)) (Finite 1022))
       \<noteq> tile2lat_d ideal_math (Finite (2 ^ 1022)) (Finite 1022)"
  by (simp only: tile2lat_d_1022 clampedLat_d_def fl_clamp_bound) simp

end
